theory Spec2Isabelle
  imports Complex_Main
begin

section \<open>FedRep model split and model manager (fedrep/models.py)\<close>

text \<open>
  The development embeds \<^verbatim>\<open>ModelSplit\<close> and \<^verbatim>\<open>ModelManager\<close> of
  \<^verbatim>\<open>fedrep/models.py\<close>. The tensor library is not part of the repository: tensors are
  values of an arbitrary type \<open>'t\<close>, minibatches of an arbitrary type \<open>'b\<close>, loss values and
  Python floats of an arbitrary type \<open>'l\<close>, and the library operations the source calls are
  the fields of a record \<open>torch\<close> that every function takes as its first argument.
  A module's state is its list of named parameters in registration order (buffers are not
  modelled); a state dictionary is an association list in insertion order.
\<close>

subsection \<open>Errors, tensors, modules\<close>

datatype error = RuntimeError | AttributeError | ZeroDivisionError | IndexError

type_synonym 't state_dict = "(string \<times> 't) list"

record 't param =
  pvalue :: 't
  requires_grad :: bool
  grad :: "'t option"

type_synonym 't module = "(string \<times> 't param) list"

record 't ModelSplit =
  body :: "'t module"
  head :: "'t module"
  training :: bool

record ('t, 'b, 'l) torch =
  shape :: "'t \<Rightarrow> nat list"
  elem0 :: "'t \<Rightarrow> 't"
  zeros_like :: "'t \<Rightarrow> 't"
  t_add :: "'t \<Rightarrow> 't \<Rightarrow> 't"
  t_scale :: "rat \<Rightarrow> 't \<Rightarrow> 't"
  criterion :: "'t ModelSplit \<Rightarrow> 'b \<Rightarrow> 'l"
  grad_of :: "'t ModelSplit \<Rightarrow> 'b \<Rightarrow> string \<Rightarrow> 't"
  n_correct :: "'t ModelSplit \<Rightarrow> 'b \<Rightarrow> nat"
  n_labels :: "'b \<Rightarrow> nat"
  f_zero :: 'l
  f_add :: "'l \<Rightarrow> 'l \<Rightarrow> 'l"
  f_div :: "'l \<Rightarrow> nat \<Rightarrow> 'l"
  set_to_none :: bool

text \<open>
  \<open>shape\<close> is \<^verbatim>\<open>Tensor.shape\<close>; \<open>elem0 T v\<close> is \<^verbatim>\<open>v[0]\<close> for a tensor \<open>v\<close> whose
  first dimension is not empty; \<open>zeros_like\<close>, \<open>t_add\<close> and \<open>t_scale\<close> are the tensor
  arithmetic of the optimizer; \<open>criterion T m b\<close> is
  \<^verbatim>\<open>CrossEntropyLoss()(model(images), labels)\<close> on the minibatch \<open>b\<close>, \<open>grad_of T m b k\<close>
  the derivative of that loss by the parameter named \<open>k\<close>, \<open>n_correct T m b\<close> the value of
  \<^verbatim>\<open>(torch.max(outputs.data, 1)[1] == labels).sum().item()\<close> and \<open>n_labels b\<close> that of
  \<^verbatim>\<open>labels.size(0)\<close>. \<open>f_zero\<close>, \<open>f_add\<close> and \<open>f_div\<close> are the float \<^verbatim>\<open>0.0\<close>,
  float addition and the division of a float by a non-zero integer. \<open>set_to_none\<close> is the
  default of \<^verbatim>\<open>Optimizer.zero_grad\<close>, which the source calls without an argument
  (\<open>True\<close> from PyTorch 2.0 on, \<open>False\<close> before).
\<close>

definition ebind :: "error + 'a \<Rightarrow> ('a \<Rightarrow> error + 'c) \<Rightarrow> error + 'c" where
  "ebind r f = (case r of Inl e \<Rightarrow> Inl e | Inr x \<Rightarrow> f x)"

definition state_dict_of :: "'t module \<Rightarrow> 't state_dict" where
  "state_dict_of md = map (\<lambda>(k, p). (k, pvalue p)) md"

definition prefixed :: "string \<Rightarrow> 't state_dict \<Rightarrow> 't state_dict" where
  "prefixed pre sd = map (\<lambda>(k, v). (pre @ k, v)) sd"

text \<open>
  \<^verbatim>\<open>ModelSplit.state_dict()\<close>: the sub-modules are the attributes \<^verbatim>\<open>_body\<close> and
  \<^verbatim>\<open>_head\<close>, assigned in this order, so their keys carry these prefixes, body first.
\<close>

definition model_state_dict :: "'t ModelSplit \<Rightarrow> 't state_dict" where
  "model_state_dict m =
     prefixed ''_body.'' (state_dict_of (body m)) @ prefixed ''_head.'' (state_dict_of (head m))"

subsection \<open>\<^verbatim>\<open>Module.load_state_dict\<close>\<close>

text \<open>
  The library visits the parameters of the module in order. For a parameter that the
  dictionary has an entry for, a one-dimensional entry for a zero-dimensional parameter is
  first replaced by its element 0 (the library's rule for old checkpoints; on an entry
  without elements the indexing raises \<^verbatim>\<open>IndexError\<close> at once); the entry is copied
  into the parameter when its shape then is the parameter's, and reported as a size mismatch
  otherwise. With \<^verbatim>\<open>strict=True\<close> the missing and the unexpected keys are reported too.
  After the visit the library raises \<^verbatim>\<open>RuntimeError\<close> when anything was reported.
  A call that raises yields the error alone: what the library has copied by then is not
  modelled.
\<close>

definition load_input :: "('t, 'b, 'l) torch \<Rightarrow> 't \<Rightarrow> 't \<Rightarrow> 't" where
  "load_input T x v = (if shape T x = [] \<and> length (shape T v) = 1 then elem0 T v else v)"

definition index_errors ::
  "('t, 'b, 'l) torch \<Rightarrow> string \<Rightarrow> 't module \<Rightarrow> 't state_dict \<Rightarrow> string list" where
  "index_errors T pre md sd =
     map fst (filter (\<lambda>(k, p). case map_of sd (pre @ k) of
                                 None \<Rightarrow> False
                               | Some v \<Rightarrow> shape T (pvalue p) = [] \<and> shape T v = [0]) md)"

definition missing_keys :: "string \<Rightarrow> 't module \<Rightarrow> 't state_dict \<Rightarrow> string list" where
  "missing_keys pre md sd = filter (\<lambda>k. map_of sd (pre @ k) = None) (map fst md)"

definition size_mismatch ::
  "('t, 'b, 'l) torch \<Rightarrow> string \<Rightarrow> 't module \<Rightarrow> 't state_dict \<Rightarrow> string list" where
  "size_mismatch T pre md sd =
     map fst (filter (\<lambda>(k, p). case map_of sd (pre @ k) of
                                 None \<Rightarrow> False
                               | Some v \<Rightarrow> shape T (load_input T (pvalue p) v)
                                            \<noteq> shape T (pvalue p)) md)"

definition copy_params ::
  "('t, 'b, 'l) torch \<Rightarrow> string \<Rightarrow> 't module \<Rightarrow> 't state_dict \<Rightarrow> 't module" where
  "copy_params T pre md sd =
     map (\<lambda>(k, p). case map_of sd (pre @ k) of
                      None \<Rightarrow> (k, p)
                    | Some v \<Rightarrow> (k, p\<lparr>pvalue := load_input T (pvalue p) v\<rparr>)) md"

definition unexpected_keys :: "string list \<Rightarrow> 't state_dict \<Rightarrow> string list" where
  "unexpected_keys own sd = filter (\<lambda>k. k \<notin> set own) (map fst sd)"

definition load_state_dict ::
  "('t, 'b, 'l) torch \<Rightarrow> 't module \<Rightarrow> 't state_dict \<Rightarrow> bool \<Rightarrow> error + 't module" where
  "load_state_dict T md sd strict =
     (if index_errors T [] md sd \<noteq> [] then Inl IndexError
      else if size_mismatch T [] md sd \<noteq> []
         \<or> (strict \<and> (missing_keys [] md sd \<noteq> [] \<or> unexpected_keys (map fst md) sd \<noteq> []))
      then Inl RuntimeError
      else Inr (copy_params T [] md sd))"

definition model_load_state_dict ::
  "('t, 'b, 'l) torch \<Rightarrow> 't ModelSplit \<Rightarrow> 't state_dict \<Rightarrow> bool \<Rightarrow> error + 't ModelSplit" where
  "model_load_state_dict T m sd strict =
     (if index_errors T ''_body.'' (body m) sd @ index_errors T ''_head.'' (head m) sd \<noteq> []
      then Inl IndexError
      else if size_mismatch T ''_body.'' (body m) sd @ size_mismatch T ''_head.'' (head m) sd \<noteq> []
         \<or> (strict \<and> (missing_keys ''_body.'' (body m) sd @ missing_keys ''_head.'' (head m) sd \<noteq> []
                      \<or> unexpected_keys (map fst (model_state_dict m)) sd \<noteq> []))
      then Inl RuntimeError
      else Inr (m\<lparr>body := copy_params T ''_body.'' (body m) sd,
                  head := copy_params T ''_head.'' (head m) sd\<rparr>))"

text \<open>
  A value \<open>v\<close> can be loaded into a parameter whose value is \<open>x\<close>: the indexing of the
  rule above does not raise, and the shape after the rule is the parameter's.
\<close>

definition loadable :: "('t, 'b, 'l) torch \<Rightarrow> 't \<Rightarrow> 't \<Rightarrow> bool" where
  "loadable T x v \<longleftrightarrow>
     \<not> (shape T x = [] \<and> shape T v = [0]) \<and> shape T (load_input T x v) = shape T x"

subsection \<open>\<^verbatim>\<open>ModelSplit\<close>\<close>

definition body_setter ::
  "('t, 'b, 'l) torch \<Rightarrow> 't ModelSplit \<Rightarrow> 't state_dict \<Rightarrow> error + 't ModelSplit" where
  "body_setter T m sd =
     ebind (load_state_dict T (body m) sd True) (\<lambda>md. Inr (m\<lparr>body := md\<rparr>))"

definition head_setter ::
  "('t, 'b, 'l) torch \<Rightarrow> 't ModelSplit \<Rightarrow> 't state_dict \<Rightarrow> error + 't ModelSplit" where
  "head_setter T m sd =
     ebind (load_state_dict T (head m) sd True) (\<lambda>md. Inr (m\<lparr>head := md\<rparr>))"


text \<open>
  \<^verbatim>\<open>OrderedDict.update\<close>: an existing key keeps its position and takes the new value, a
  new key is appended.
\<close>

fun od_set :: "string \<Rightarrow> 't \<Rightarrow> 't state_dict \<Rightarrow> 't state_dict" where
  "od_set k v [] = [(k, v)]"
| "od_set k v ((k', v') # d) = (if k' = k then (k, v) # d else (k', v') # od_set k v d)"

definition od_update :: "'t state_dict \<Rightarrow> 't state_dict \<Rightarrow> 't state_dict" where
  "od_update d items = fold (\<lambda>(k, v). od_set k v) items d"

definition set_parameters ::
  "('t, 'b, 'l) torch \<Rightarrow> 't ModelSplit \<Rightarrow> 't state_dict \<Rightarrow> error + 't ModelSplit" where
  "set_parameters T m sd =
     (let ordered_state_dict = od_update (model_state_dict m) sd
      in model_load_state_dict T m ordered_state_dict False)"

definition set_requires_grad :: "bool \<Rightarrow> 't module \<Rightarrow> 't module" where
  "set_requires_grad b md = map (\<lambda>(k, p). (k, p\<lparr>requires_grad := b\<rparr>)) md"

definition enable_head :: "'t ModelSplit \<Rightarrow> 't ModelSplit" where
  "enable_head m = m\<lparr>head := set_requires_grad True (head m)\<rparr>"

definition enable_body :: "'t ModelSplit \<Rightarrow> 't ModelSplit" where
  "enable_body m = m\<lparr>body := set_requires_grad True (body m)\<rparr>"

definition disable_head :: "'t ModelSplit \<Rightarrow> 't ModelSplit" where
  "disable_head m = m\<lparr>head := set_requires_grad False (head m)\<rparr>"

definition disable_body :: "'t ModelSplit \<Rightarrow> 't ModelSplit" where
  "disable_body m = m\<lparr>body := set_requires_grad False (body m)\<rparr>"

subsection \<open>Autograd and \<^verbatim>\<open>torch.optim.SGD\<close>\<close>

text \<open>
  The optimizer is an object of its own: its learning rate, its momentum and the momentum
  buffer it keeps for each parameter it has updated, here under the parameter's full name.
\<close>

record 't SGD =
  lr :: rat
  momentum :: rat
  momentum_buffer :: "string \<Rightarrow> 't option"

definition SGD_new :: "rat \<Rightarrow> rat \<Rightarrow> 't SGD" where
  "SGD_new rate mom = \<lparr>lr = rate, momentum = mom, momentum_buffer = (\<lambda>k. None)\<rparr>"

text \<open>
  \<^verbatim>\<open>optimizer.zero_grad()\<close>: every gradient becomes \<^verbatim>\<open>None\<close>, or, with the older
  default, every gradient that exists is zeroed in place.
\<close>

definition zero_grad_params :: "('t, 'b, 'l) torch \<Rightarrow> 't module \<Rightarrow> 't module" where
  "zero_grad_params T md =
     map (\<lambda>(k, p). (k, p\<lparr>grad := (if set_to_none T then None
                                    else map_option (zeros_like T) (grad p))\<rparr>)) md"

definition zero_grad :: "('t, 'b, 'l) torch \<Rightarrow> 't ModelSplit \<Rightarrow> 't ModelSplit" where
  "zero_grad T m = m\<lparr>body := zero_grad_params T (body m), head := zero_grad_params T (head m)\<rparr>"

text \<open>
  \<^verbatim>\<open>loss.backward()\<close>: the gradient of the loss is accumulated into every parameter that
  requires one and no other parameter is touched; a loss that depends on no such parameter
  has no graph, and the call raises \<^verbatim>\<open>RuntimeError\<close>.
\<close>

definition accumulate_grad ::
  "('t, 'b, 'l) torch \<Rightarrow> 't ModelSplit \<Rightarrow> 'b \<Rightarrow> string \<Rightarrow> 't module \<Rightarrow> 't module" where
  "accumulate_grad T m b pre md =
     map (\<lambda>(k, p). if requires_grad p
                    then (k, p\<lparr>grad := Some (case grad p of
                                                None \<Rightarrow> grad_of T m b (pre @ k)
                                              | Some g \<Rightarrow> t_add T g (grad_of T m b (pre @ k)))\<rparr>)
                    else (k, p)) md"

definition backward :: "('t, 'b, 'l) torch \<Rightarrow> 't ModelSplit \<Rightarrow> 'b \<Rightarrow> error + 't ModelSplit" where
  "backward T m b =
     (if list_ex (\<lambda>(k, p). requires_grad p) (body m @ head m)
      then Inr (m\<lparr>body := accumulate_grad T m b ''_body.'' (body m),
                  head := accumulate_grad T m b ''_head.'' (head m)\<rparr>)
      else Inl RuntimeError)"

text \<open>
  \<^verbatim>\<open>optimizer.step()\<close> of SGD without dampening, weight decay or Nesterov momentum: a
  parameter whose gradient is \<^verbatim>\<open>None\<close> is skipped; otherwise, with a non-zero momentum,
  the buffer becomes the gradient (first update) or \<open>momentum * buffer + gradient\<close> and is
  the direction, and the parameter moves by \<open>- lr * direction\<close>.
\<close>

fun step_params ::
  "('t, 'b, 'l) torch \<Rightarrow> string \<Rightarrow> 't SGD \<Rightarrow> 't module \<Rightarrow> 't module \<times> 't SGD" where
  "step_params T pre opt [] = ([], opt)"
| "step_params T pre opt ((k, p) # md) =
     (case grad p of
        None \<Rightarrow> (let (md', opt') = step_params T pre opt md in ((k, p) # md', opt'))
      | Some g \<Rightarrow>
          (let d = (if momentum opt \<noteq> 0
                    then (case momentum_buffer opt (pre @ k) of
                            None \<Rightarrow> g
                          | Some buf \<Rightarrow> t_add T (t_scale T (momentum opt) buf) g)
                    else g);
               opt1 = (if momentum opt \<noteq> 0
                       then opt\<lparr>momentum_buffer := (momentum_buffer opt)(pre @ k := Some d)\<rparr>
                       else opt);
               (md', opt') = step_params T pre opt1 md
           in ((k, p\<lparr>pvalue := t_add T (pvalue p) (t_scale T (- lr opt) d)\<rparr>) # md', opt')))"

definition step :: "('t, 'b, 'l) torch \<Rightarrow> 't SGD \<Rightarrow> 't ModelSplit \<Rightarrow> 't ModelSplit \<times> 't SGD" where
  "step T opt m =
     (let (bd, opt1) = step_params T ''_body.'' opt (body m);
          (hd', opt2) = step_params T ''_head.'' opt1 (head m)
      in (m\<lparr>body := bd, head := hd'\<rparr>, opt2))"

subsection \<open>\<^verbatim>\<open>ModelManager\<close>\<close>

record 'b DataLoader =
  batches :: "'b list"
  dataset_len :: nat

record config =
  num_local_epochs :: "int option"
  num_rep_epochs :: "int option"
  num_finetune_epochs :: "int option"

text \<open>The constants of \<^verbatim>\<open>fedrep.constants\<close>, a module the sources do not include.\<close>

record constants =
  DEFAULT_FINETUNE_EPOCHS :: int
  DEFAULT_LOCAL_TRAIN_EPOCHS :: int
  DEFAULT_REPRESENTATION_EPOCHS :: int

record ('t, 'b) ModelManager =
  mconfig :: config
  trainloader :: "'b DataLoader"
  testloader :: "'b DataLoader"
  client_save_path :: "string option"
  learning_rate :: rat
  model :: "'t ModelSplit"

text \<open>
  The file system: the state dictionary stored at a path, if a file is there
  (\<^verbatim>\<open>os.path.isfile\<close>, \<^verbatim>\<open>torch.load\<close>, \<^verbatim>\<open>torch.save\<close>).
\<close>

type_synonym 't files = "string \<Rightarrow> 't state_dict option"

record 'l metrics =
  loss :: 'l
  accuracy :: rat

text \<open>
  The variable \<^verbatim>\<open>loss\<close> of \<^verbatim>\<open>train\<close> starts as the Python float \<^verbatim>\<open>0.0\<close> and holds a
  tensor after the first minibatch; only a tensor has \<^verbatim>\<open>.item()\<close>.
\<close>

datatype 'l py_loss = FloatZero | LossTensor 'l

definition item :: "'l py_loss \<Rightarrow> error + 'l" where
  "item l = (case l of FloatZero \<Rightarrow> Inl AttributeError | LossTensor x \<Rightarrow> Inr x)"

text \<open>\<^verbatim>\<open>correct / total\<close> on Python integers, before rounding to a float.\<close>

definition py_div :: "nat \<Rightarrow> nat \<Rightarrow> error + rat" where
  "py_div a b = (if b = 0 then Inl ZeroDivisionError else Inr (of_nat a / of_nat b))"

definition float_div :: "('t, 'b, 'l) torch \<Rightarrow> 'l \<Rightarrow> nat \<Rightarrow> error + 'l" where
  "float_div T x n = (if n = 0 then Inl ZeroDivisionError else Inr (f_div T x n))"

text \<open>
  An epoch count: the default constant, replaced by \<^verbatim>\<open>int(self.config.<field>)\<close> when the
  configuration has the field.
\<close>

definition config_or :: "int option \<Rightarrow> int \<Rightarrow> int" where
  "config_or field dflt = (case field of None \<Rightarrow> dflt | Some n \<Rightarrow> n)"

definition py_range :: "int \<Rightarrow> int list" where
  "py_range n = map int [0..<nat n]"

definition load_client_state ::
  "('t, 'b, 'l) torch \<Rightarrow> 't files \<Rightarrow> ('t, 'b) ModelManager \<Rightarrow> error + ('t, 'b) ModelManager" where
  "load_client_state T fs mg =
     (case client_save_path mg of
        None \<Rightarrow> Inr mg
      | Some path \<Rightarrow>
          (case fs path of
             None \<Rightarrow> Inr mg
           | Some sd \<Rightarrow>
               ebind (load_state_dict T (head (model mg)) sd True)
                 (\<lambda>h. Inr (mg\<lparr>model := (model mg)\<lparr>head := h\<rparr>\<rparr>))))"

record ('t, 'l) train_state =
  ts_model :: "'t ModelSplit"
  ts_opt :: "'t SGD"
  ts_loss :: "'l py_loss"
  ts_correct :: nat
  ts_total :: nat

text \<open>One minibatch of \<^verbatim>\<open>train\<close> (the body of the inner loop).\<close>

definition train_batch ::
  "('t, 'b, 'l) torch \<Rightarrow> ('t, 'l) train_state \<Rightarrow> 'b \<Rightarrow> error + ('t, 'l) train_state" where
  "train_batch T st b =
     (let m = ts_model st;
          l = criterion T m b;
          m1 = zero_grad T m
      in ebind (backward T m1 b)
           (\<lambda>m2. let (m3, opt') = step T (ts_opt st) m2
                  in Inr \<lparr>ts_model = m3, ts_opt = opt', ts_loss = LossTensor l,
                          ts_correct = ts_correct st + n_correct T m b,
                          ts_total = ts_total st + n_labels T b\<rparr>))"

fun train_batches ::
  "('t, 'b, 'l) torch \<Rightarrow> ('t, 'l) train_state \<Rightarrow> 'b list \<Rightarrow> error + ('t, 'l) train_state" where
  "train_batches T st [] = Inr st"
| "train_batches T st (b # bs) = ebind (train_batch T st b) (\<lambda>st'. train_batches T st' bs)"

text \<open>The loop \<^verbatim>\<open>for i in range(num_local_epochs + num_rep_epochs)\<close>, over its indices.\<close>

fun train_epochs ::
  "('t, 'b, 'l) torch \<Rightarrow> int \<Rightarrow> 'b DataLoader \<Rightarrow> ('t, 'l) train_state \<Rightarrow> int list
     \<Rightarrow> error + ('t, 'l) train_state" where
  "train_epochs T nl loader st [] = Inr st"
| "train_epochs T nl loader st (i # is) =
     (let m = (if i < nl then enable_head (disable_body (ts_model st))
               else disable_head (enable_body (ts_model st)))
      in ebind (train_batches T (st\<lparr>ts_model := m\<rparr>) (batches loader))
           (\<lambda>st'. train_epochs T nl loader st' is))"

text \<open>
  Lines 195 to 218 of \<^verbatim>\<open>train\<close>: the criterion, the optimizer, the counters, \<^verbatim>\<open>model.train()\<close>
  and the loop.
\<close>

definition train_loop ::
  "('t, 'b, 'l) torch \<Rightarrow> int \<Rightarrow> int \<Rightarrow> ('t, 'b) ModelManager \<Rightarrow> error + ('t, 'l) train_state" where
  "train_loop T nl nr mg =
     (let optimizer = SGD_new (learning_rate mg) (1 / 2);
          st0 = \<lparr>ts_model = (model mg)\<lparr>training := True\<rparr>, ts_opt = optimizer,
                 ts_loss = FloatZero, ts_correct = 0, ts_total = 0\<rparr>
      in train_epochs T nl (trainloader mg) st0 (py_range (nl + nr)))"

definition save_client_state :: "'t files \<Rightarrow> ('t, 'b) ModelManager \<Rightarrow> 't files" where
  "save_client_state fs mg =
     (case client_save_path mg of
        None \<Rightarrow> fs
      | Some path \<Rightarrow> fs(path := Some (state_dict_of (head (model mg)))))"

text \<open>
  \<^verbatim>\<open>train\<close> after the client state was loaded: the epoch counts, the loop and the write of
  the client state (lines 187 to 222).
\<close>

definition train_loaded ::
  "('t, 'b, 'l) torch \<Rightarrow> constants \<Rightarrow> 't files \<Rightarrow> ('t, 'b) ModelManager
     \<Rightarrow> error + (('t, 'l) train_state \<times> ('t, 'b) ModelManager \<times> 't files)" where
  "train_loaded T D fs mg1 =
     (let nl = config_or (num_local_epochs (mconfig mg1)) (DEFAULT_LOCAL_TRAIN_EPOCHS D);
          nr = config_or (num_rep_epochs (mconfig mg1)) (DEFAULT_REPRESENTATION_EPOCHS D)
      in ebind (train_loop T nl nr mg1)
           (\<lambda>st. let mg2 = mg1\<lparr>model := ts_model st\<rparr>
                  in Inr (st, mg2, save_client_state fs mg2)))"

text \<open>\<^verbatim>\<open>train\<close> up to the write of the client state (lines 183 to 222).\<close>

definition train_run ::
  "('t, 'b, 'l) torch \<Rightarrow> constants \<Rightarrow> 't files \<Rightarrow> ('t, 'b) ModelManager
     \<Rightarrow> error + (('t, 'l) train_state \<times> ('t, 'b) ModelManager \<times> 't files)" where
  "train_run T D fs mg = ebind (load_client_state T fs mg) (train_loaded T D fs)"

text \<open>
  The \<^verbatim>\<open>return\<close> of \<^verbatim>\<open>train\<close> (line 224): the dictionary display evaluates
  \<^verbatim>\<open>loss.item()\<close> first, then \<^verbatim>\<open>correct / total\<close>.
\<close>

definition train_return ::
  "('t, 'l) train_state \<times> ('t, 'b) ModelManager \<times> 't files
     \<Rightarrow> error + ('l metrics \<times> ('t, 'b) ModelManager \<times> 't files)" where
  "train_return r =
     (let (st, mg2, fs2) = r
      in ebind (item (ts_loss st))
           (\<lambda>l. ebind (py_div (ts_correct st) (ts_total st))
                   (\<lambda>a. Inr (\<lparr>loss = l, accuracy = a\<rparr>, mg2, fs2))))"

definition train ::
  "('t, 'b, 'l) torch \<Rightarrow> constants \<Rightarrow> 't files \<Rightarrow> ('t, 'b) ModelManager
     \<Rightarrow> error + ('l metrics \<times> ('t, 'b) ModelManager \<times> 't files)" where
  "train T D fs mg = ebind (train_run T D fs mg) train_return"

text \<open>One minibatch of the fine-tuning loop of \<^verbatim>\<open>test\<close>.\<close>

definition finetune_batch ::
  "('t, 'b, 'l) torch \<Rightarrow> 't ModelSplit \<times> 't SGD \<Rightarrow> 'b \<Rightarrow> error + ('t ModelSplit \<times> 't SGD)" where
  "finetune_batch T s b =
     (let (m, opt) = s; m1 = zero_grad T m
      in ebind (backward T m1 b) (\<lambda>m2. Inr (step T opt m2)))"

fun finetune_batches ::
  "('t, 'b, 'l) torch \<Rightarrow> 't ModelSplit \<times> 't SGD \<Rightarrow> 'b list \<Rightarrow> error + ('t ModelSplit \<times> 't SGD)" where
  "finetune_batches T s [] = Inr s"
| "finetune_batches T s (b # bs) = ebind (finetune_batch T s b) (\<lambda>s'. finetune_batches T s' bs)"

fun finetune_epochs ::
  "('t, 'b, 'l) torch \<Rightarrow> 'b DataLoader \<Rightarrow> 't ModelSplit \<times> 't SGD \<Rightarrow> int list
     \<Rightarrow> error + ('t ModelSplit \<times> 't SGD)" where
  "finetune_epochs T loader s [] = Inr s"
| "finetune_epochs T loader s (i # is) =
     ebind (finetune_batches T s (batches loader)) (\<lambda>s'. finetune_epochs T loader s' is)"

definition finetune ::
  "('t, 'b, 'l) torch \<Rightarrow> int \<Rightarrow> ('t, 'b) ModelManager \<Rightarrow> error + 't ModelSplit" where
  "finetune T nf mg =
     (if nf > 0
      then (let optimizer = SGD_new (learning_rate mg) 0
            in ebind (finetune_epochs T (trainloader mg)
                        ((model mg)\<lparr>training := True\<rparr>, optimizer) (py_range nf))
                 (\<lambda>(m, opt). Inr m))
      else Inr (model mg))"

text \<open>The evaluation loop of \<^verbatim>\<open>test\<close>, under \<^verbatim>\<open>torch.no_grad()\<close>: only the sums change.\<close>

fun eval_batches ::
  "('t, 'b, 'l) torch \<Rightarrow> 't ModelSplit \<Rightarrow> 'l \<times> nat \<times> nat \<Rightarrow> 'b list \<Rightarrow> 'l \<times> nat \<times> nat" where
  "eval_batches T m acc [] = acc"
| "eval_batches T m (l, n_cor, n_tot) (b # bs) =
     eval_batches T m (f_add T l (criterion T m b), n_cor + n_correct T m b,
                       n_tot + n_labels T b) bs"

text \<open>
  \<^verbatim>\<open>test\<close> after the client state was loaded (lines 237 to 269); the mean loss is
  evaluated before the accuracy.
\<close>

definition test_loaded ::
  "('t, 'b, 'l) torch \<Rightarrow> constants \<Rightarrow> ('t, 'b) ModelManager
     \<Rightarrow> error + ('l metrics \<times> ('t, 'b) ModelManager)" where
  "test_loaded T D mg1 =
     (let nf = config_or (num_finetune_epochs (mconfig mg1)) (DEFAULT_FINETUNE_EPOCHS D)
      in ebind (finetune T nf mg1)
           (\<lambda>m1. let m2 = m1\<lparr>training := False\<rparr>;
                      (l, n_cor, n_tot) =
                         eval_batches T m2 (f_zero T, 0, 0) (batches (testloader mg1))
                  in ebind (float_div T l (dataset_len (testloader mg1)))
                       (\<lambda>ml. ebind (py_div n_cor n_tot)
                                (\<lambda>a. Inr (\<lparr>loss = ml, accuracy = a\<rparr>, mg1\<lparr>model := m2\<rparr>)))))"

definition test ::
  "('t, 'b, 'l) torch \<Rightarrow> constants \<Rightarrow> 't files \<Rightarrow> ('t, 'b) ModelManager
     \<Rightarrow> error + ('l metrics \<times> ('t, 'b) ModelManager)" where
  "test T D fs mg = ebind (load_client_state T fs mg) (test_loaded T D)"

subsection \<open>The two-phase procedure as the specification words it\<close>

text \<open>
  The specification describes \<^verbatim>\<open>train\<close> as two loops in sequence: phase A runs a number of
  epochs with the body frozen and the head trainable, phase B a number of epochs with the head
  frozen and the body trainable, over the same loader and with the one optimizer (SGD with
  momentum 0.5) that was created before phase A.
\<close>

fun repeat_epochs :: "nat \<Rightarrow> ('s \<Rightarrow> error + 's) \<Rightarrow> 's \<Rightarrow> error + 's" where
  "repeat_epochs 0 f s = Inr s"
| "repeat_epochs (Suc n) f s = ebind (f s) (repeat_epochs n f)"

definition head_phase_epoch ::
  "('t, 'b, 'l) torch \<Rightarrow> 'b DataLoader \<Rightarrow> ('t, 'l) train_state \<Rightarrow> error + ('t, 'l) train_state" where
  "head_phase_epoch T loader st =
     train_batches T (st\<lparr>ts_model := enable_head (disable_body (ts_model st))\<rparr>) (batches loader)"

definition rep_phase_epoch ::
  "('t, 'b, 'l) torch \<Rightarrow> 'b DataLoader \<Rightarrow> ('t, 'l) train_state \<Rightarrow> error + ('t, 'l) train_state" where
  "rep_phase_epoch T loader st =
     train_batches T (st\<lparr>ts_model := disable_head (enable_body (ts_model st))\<rparr>) (batches loader)"

definition two_phase_train ::
  "('t, 'b, 'l) torch \<Rightarrow> nat \<Rightarrow> nat \<Rightarrow> ('t, 'b) ModelManager \<Rightarrow> error + ('t, 'l) train_state" where
  "two_phase_train T na nb mg =
     (let optimizer = SGD_new (learning_rate mg) (1 / 2);
          st0 = \<lparr>ts_model = (model mg)\<lparr>training := True\<rparr>, ts_opt = optimizer,
                 ts_loss = FloatZero, ts_correct = 0, ts_total = 0\<rparr>
      in ebind (repeat_epochs na (head_phase_epoch T (trainloader mg)) st0)
           (repeat_epochs nb (rep_phase_epoch T (trainloader mg))))"

text \<open>Two modules have the same architecture: the same names with the same shapes, in order.\<close>

definition shapes_of :: "('t, 'b, 'l) torch \<Rightarrow> 't module \<Rightarrow> (string \<times> nat list) list" where
  "shapes_of T md = map (\<lambda>(k, p). (k, shape T (pvalue p))) md"

subsection \<open>A small instance\<close>

text \<open>
  Tensors are vectors of rationals, a minibatch is one rational (the gradient of every
  parameter on it), and the model has one body parameter \<open>w\<close> and one head parameter \<open>v\<close>.
\<close>

definition toy_torch :: "(rat list, rat, rat) torch" where
  "toy_torch = \<lparr>shape = (\<lambda>v. [length v]), elem0 = take 1, zeros_like = map (\<lambda>x. 0), t_add = map2 (+),
       t_scale = (\<lambda>c. map ((*) c)), criterion = (\<lambda>m b. b), grad_of = (\<lambda>m b k. [b]),
       n_correct = (\<lambda>m b. 1), n_labels = (\<lambda>b. 2), f_zero = 0, f_add = (+),
       f_div = (\<lambda>x n. x / of_nat n), set_to_none = True\<rparr>"

definition toy_param :: "rat list \<Rightarrow> rat list param" where
  "toy_param v = \<lparr>pvalue = v, requires_grad = True, grad = None\<rparr>"

definition toy_model :: "rat list ModelSplit" where
  "toy_model = \<lparr>body = [(''w'', toy_param [1])], head = [(''v'', toy_param [2])],
                 training = False\<rparr>"

definition toy_config :: "int option \<Rightarrow> int option \<Rightarrow> int option \<Rightarrow> config" where
  "toy_config a b c = \<lparr>num_local_epochs = a, num_rep_epochs = b, num_finetune_epochs = c\<rparr>"

definition toy_constants :: constants where
  "toy_constants = \<lparr>DEFAULT_FINETUNE_EPOCHS = 1, DEFAULT_LOCAL_TRAIN_EPOCHS = 1,
                     DEFAULT_REPRESENTATION_EPOCHS = 1\<rparr>"

definition toy_manager :: "config \<Rightarrow> (rat list, rat) ModelManager" where
  "toy_manager c = \<lparr>mconfig = c, trainloader = \<lparr>batches = [1], dataset_len = 2\<rparr>,
       testloader = \<lparr>batches = [3], dataset_len = 2\<rparr>, client_save_path = Some ''client_0.pth'',
       learning_rate = 1, model = toy_model\<rparr>"

definition no_files :: "rat list files" where
  "no_files = (\<lambda>path. None)"

text \<open>
  A second instance has tensors of dimension zero and one, for the library's rule on
  zero-dimensional parameters: the head is a single scalar \<open>t\<close>.
\<close>

datatype tensor0 = Scalar rat | Vector "rat list"

fun shape0 :: "tensor0 \<Rightarrow> nat list" where
  "shape0 (Scalar x) = []"
| "shape0 (Vector xs) = [length xs]"

fun first0 :: "tensor0 \<Rightarrow> tensor0" where
  "first0 (Vector (x # xs)) = Scalar x"
| "first0 t = t"

fun zeros0 :: "tensor0 \<Rightarrow> tensor0" where
  "zeros0 (Scalar x) = Scalar 0"
| "zeros0 (Vector xs) = Vector (map (\<lambda>x. 0) xs)"

fun add0 :: "tensor0 \<Rightarrow> tensor0 \<Rightarrow> tensor0" where
  "add0 (Scalar a) (Scalar b) = Scalar (a + b)"
| "add0 (Scalar a) (Vector ys) = Vector (map (\<lambda>y. a + y) ys)"
| "add0 (Vector xs) (Scalar b) = Vector (map (\<lambda>x. x + b) xs)"
| "add0 (Vector xs) (Vector ys) = Vector (map2 (+) xs ys)"

fun scale0 :: "rat \<Rightarrow> tensor0 \<Rightarrow> tensor0" where
  "scale0 c (Scalar a) = Scalar (c * a)"
| "scale0 c (Vector xs) = Vector (map ((*) c) xs)"

definition scalar_torch :: "(tensor0, rat, rat) torch" where
  "scalar_torch = \<lparr>shape = shape0, elem0 = first0, zeros_like = zeros0, t_add = add0,
       t_scale = scale0, criterion = (\<lambda>m b. b), grad_of = (\<lambda>m b k. Scalar b),
       n_correct = (\<lambda>m b. 1), n_labels = (\<lambda>b. 2), f_zero = 0, f_add = (+),
       f_div = (\<lambda>x n. x / of_nat n), set_to_none = True\<rparr>"

definition scalar_param :: "tensor0 \<Rightarrow> tensor0 param" where
  "scalar_param v = \<lparr>pvalue = v, requires_grad = True, grad = None\<rparr>"

definition scalar_model :: "tensor0 ModelSplit" where
  "scalar_model = \<lparr>body = [(''w'', scalar_param (Vector [1]))],
                    head = [(''t'', scalar_param (Scalar 2))], training = False\<rparr>"

section \<open>Properties\<close>

subsection \<open>The sum of errors and results\<close>

lemma ebind_Inr [simp]: "ebind (Inr x) f = f x"
  by (simp add: ebind_def)

lemma ebind_Inl [simp]: "ebind (Inl e) f = Inl e"
  by (simp add: ebind_def)

lemma ebind_eq_Inr: "ebind r f = Inr y \<longleftrightarrow> (\<exists>x. r = Inr x \<and> f x = Inr y)"
  by (cases r) simp_all

lemma ebind_assoc: "ebind (ebind r f) g = ebind r (\<lambda>x. ebind (f x) g)"
  by (cases r) simp_all

subsection \<open>State dictionaries\<close>

lemma map_of_od_set: "map_of (od_set k v d) = (map_of d)(k \<mapsto> v)"
  by (induction d) (auto simp: fun_eq_iff)

lemma map_of_fold_od_set:
  "map_of (fold (\<lambda>(k, v). od_set k v) items d) = map_of d ++ map_of (rev items)"
proof (induction items arbitrary: d)
  case Nil
  show ?case by simp
next
  case (Cons a items)
  obtain k v where a: "a = (k, v)" by (cases a)
  have "map_of (fold (\<lambda>(k, v). od_set k v) (a # items) d)
        = map_of (od_set k v d) ++ map_of (rev items)"
    using Cons.IH [of "od_set k v d"] a by simp
  also have "\<dots> = map_of d ++ map_of (rev (a # items))"
    by (simp add: map_of_od_set a fun_eq_iff map_add_def split: option.splits)
  finally show ?case .
qed

lemma map_of_od_update: "map_of (od_update d items) = map_of d ++ map_of (rev items)"
  by (simp add: od_update_def map_of_fold_od_set)

lemma map_of_rev_distinct: "distinct (map fst xs) \<Longrightarrow> map_of (rev xs) = map_of xs"
  by (rule ext) (metis map_of_eq_None_iff map_of_is_SomeI not_Some_eq set_rev map_of_SomeD)

lemma map_of_prefixed:
  "map_of (prefixed pre (state_dict_of md)) (pre @ k) = map_option pvalue (map_of md k)"
  by (induction md) (auto simp: prefixed_def state_dict_of_def)

lemma map_of_head_prefixed_body_key: "map_of (prefixed ''_head.'' sd) (''_body.'' @ k) = None"
  by (induction sd) (auto simp: prefixed_def)

lemma map_of_body_prefixed_head_key: "map_of (prefixed ''_body.'' sd) (''_head.'' @ k) = None"
  by (induction sd) (auto simp: prefixed_def)

lemma map_of_model_state_dict_body:
  "map_of (model_state_dict m) (''_body.'' @ k) = map_option pvalue (map_of (body m) k)"
  by (simp add: model_state_dict_def map_add_def map_of_prefixed
        map_of_head_prefixed_body_key del: append.simps split: option.splits)

lemma map_of_model_state_dict_head:
  "map_of (model_state_dict m) (''_head.'' @ k) = map_option pvalue (map_of (head m) k)"
  by (simp add: model_state_dict_def map_add_def map_of_prefixed
        map_of_body_prefixed_head_key del: append.simps split: option.splits)

lemma keys_prefixed: "map fst (prefixed pre (state_dict_of md)) = map ((@) pre) (map fst md)"
  by (simp add: prefixed_def state_dict_of_def case_prod_unfold comp_def)

lemma keys_model_state_dict:
  "map fst (model_state_dict m)
     = map ((@) ''_body.'') (map fst (body m)) @ map ((@) ''_head.'') (map fst (head m))"
  by (simp only: model_state_dict_def map_append keys_prefixed)

lemma copy_params_keys: "map fst (copy_params T pre md sd) = map fst md"
  by (induction md) (auto simp: copy_params_def split: option.splits)

lemma load_input_same_shape: "shape T v = shape T x \<Longrightarrow> load_input T x v = v"
  by (auto simp: load_input_def)

lemma same_shape_loadable: "shape T v = shape T x \<Longrightarrow> loadable T x v"
  by (auto simp: loadable_def load_input_def)

lemma size_mismatch_Nil_iff:
  "size_mismatch T pre md sd = []
     \<longleftrightarrow> (\<forall>(k, p) \<in> set md. \<forall>v. map_of sd (pre @ k) = Some v
               \<longrightarrow> shape T (load_input T (pvalue p) v) = shape T (pvalue p))"
  by (auto simp: size_mismatch_def filter_empty_conv split: option.splits)

lemma index_errors_Nil_iff:
  "index_errors T pre md sd = []
     \<longleftrightarrow> (\<forall>(k, p) \<in> set md. \<forall>v. map_of sd (pre @ k) = Some v
               \<longrightarrow> \<not> (shape T (pvalue p) = [] \<and> shape T v = [0]))"
  by (auto simp: index_errors_def filter_empty_conv split: option.splits)

lemma no_errors_iff_loadable:
  "index_errors T pre md sd = [] \<and> size_mismatch T pre md sd = []
     \<longleftrightarrow> (\<forall>(k, p) \<in> set md. \<forall>v. map_of sd (pre @ k) = Some v \<longrightarrow> loadable T (pvalue p) v)"
  unfolding index_errors_Nil_iff size_mismatch_Nil_iff loadable_def by blast

lemma same_shapes_no_errors:
  assumes "\<forall>(k, p) \<in> set md. \<forall>v. map_of sd (pre @ k) = Some v
                                   \<longrightarrow> shape T v = shape T (pvalue p)"
  shows "index_errors T pre md sd = [] \<and> size_mismatch T pre md sd = []"
  unfolding no_errors_iff_loadable using assms same_shape_loadable by fastforce

lemma set_parameters_eq:
  "set_parameters T m sd =
     (if index_errors T ''_body.'' (body m) (od_update (model_state_dict m) sd) = []
         \<and> index_errors T ''_head.'' (head m) (od_update (model_state_dict m) sd) = []
      then (if size_mismatch T ''_body.'' (body m) (od_update (model_state_dict m) sd) = []
              \<and> size_mismatch T ''_head.'' (head m) (od_update (model_state_dict m) sd) = []
            then Inr (m\<lparr>body := copy_params T ''_body.'' (body m)
                                    (od_update (model_state_dict m) sd),
                        head := copy_params T ''_head.'' (head m)
                                    (od_update (model_state_dict m) sd)\<rparr>)
            else Inl RuntimeError)
      else Inl IndexError)"
  by (simp add: set_parameters_def model_load_state_dict_def Let_def)

lemma copy_same_arch:
  "shapes_of T md2 = shapes_of T md \<Longrightarrow> distinct (map fst md)
   \<Longrightarrow> (\<And>k. k \<in> set (map fst md) \<Longrightarrow> map_of sd (pre @ k) = map_option pvalue (map_of md k))
   \<Longrightarrow> index_errors T pre md2 sd = [] \<and> size_mismatch T pre md2 sd = []
       \<and> state_dict_of (copy_params T pre md2 sd) = state_dict_of md"
proof (induction md2 arbitrary: md)
  case Nil
  then show ?case
    by (simp add: shapes_of_def index_errors_def size_mismatch_def copy_params_def
          state_dict_of_def)
next
  case (Cons x md2)
  obtain k2 p2 where x: "x = (k2, p2)" by (cases x)
  from Cons.prems(1) obtain y md' where md: "md = y # md'"
    by (cases md) (simp_all add: shapes_of_def)
  obtain k p where y: "y = (k, p)" by (cases y)
  from Cons.prems(1) have keq: "k2 = k" and sh: "shape T (pvalue p2) = shape T (pvalue p)"
    and rest: "shapes_of T md2 = shapes_of T md'"
    by (simp_all add: shapes_of_def x md y)
  from Cons.prems(2) have dist: "distinct (map fst md')" and knot: "k \<notin> set (map fst md')"
    by (simp_all add: md y)
  have here: "map_of sd (pre @ k) = Some (pvalue p)"
    using Cons.prems(3) [of k] by (simp add: md y)
  have li: "load_input T (pvalue p2) (pvalue p) = pvalue p"
    by (rule load_input_same_shape) (simp add: sh)
  have tail: "\<And>k'. k' \<in> set (map fst md') \<Longrightarrow>
                 map_of sd (pre @ k') = map_option pvalue (map_of md' k')"
  proof -
    fix k' assume k': "k' \<in> set (map fst md')"
    with knot have "k' \<noteq> k" by auto
    with Cons.prems(3) [of k'] k' show "map_of sd (pre @ k') = map_option pvalue (map_of md' k')"
      by (simp add: md y)
  qed
  from Cons.IH [OF rest dist tail]
  have ih: "index_errors T pre md2 sd = []" "size_mismatch T pre md2 sd = []"
           "state_dict_of (copy_params T pre md2 sd) = state_dict_of md'"
    by simp_all
  from ih(1) have "index_errors T pre (x # md2) sd = []"
    by (simp add: index_errors_def x keq here sh)
  moreover from ih(2) have "size_mismatch T pre (x # md2) sd = []"
    by (simp add: size_mismatch_def x keq here li sh)
  moreover from ih(3) have "state_dict_of (copy_params T pre (x # md2) sd) = state_dict_of md"
    by (simp add: copy_params_def state_dict_of_def x keq here li md y)
  ultimately show ?case by simp
qed

lemma keys_state_dict_of: "map fst (state_dict_of md) = map fst md"
  by (simp add: state_dict_of_def case_prod_unfold comp_def)







lemma shapes_of_keys: "shapes_of T md2 = shapes_of T md \<Longrightarrow> map fst md2 = map fst md"
proof -
  assume "shapes_of T md2 = shapes_of T md"
  then have "map fst (shapes_of T md2) = map fst (shapes_of T md)" by simp
  then show ?thesis by (simp add: shapes_of_def case_prod_unfold comp_def)
qed




lemma map_of_key_Some: "k \<in> set (map fst md) \<Longrightarrow> \<exists>p. map_of md k = Some p"
  by (induction md) auto



subsection \<open>Claim C6: \<^verbatim>\<open>get_parameters\<close> and the round trip through \<^verbatim>\<open>set_parameters\<close>\<close>



subsection \<open>Strict loading\<close>

lemma load_strict_missing:
  "k \<in> set (map fst md) \<Longrightarrow> k \<notin> set (map fst sd)
   \<Longrightarrow> load_state_dict T md sd True
       = Inl (if index_errors T [] md sd = [] then RuntimeError else IndexError)"
proof -
  assume k: "k \<in> set (map fst md)" and n: "k \<notin> set (map fst sd)"
  from n have "map_of sd k = None" by (simp add: map_of_eq_None_iff)
  with k have "k \<in> set (missing_keys [] md sd)" by (simp add: missing_keys_def)
  then have "missing_keys [] md sd \<noteq> []" by auto
  then show ?thesis by (simp add: load_state_dict_def)
qed

lemma load_strict_unexpected:
  "k \<in> set (map fst sd) \<Longrightarrow> k \<notin> set (map fst md)
   \<Longrightarrow> load_state_dict T md sd True
       = Inl (if index_errors T [] md sd = [] then RuntimeError else IndexError)"
proof -
  assume k: "k \<in> set (map fst sd)" and n: "k \<notin> set (map fst md)"
  then have "k \<in> set (unexpected_keys (map fst md) sd)" by (simp add: unexpected_keys_def)
  then have "unexpected_keys (map fst md) sd \<noteq> []" by auto
  then show ?thesis by (simp add: load_state_dict_def)
qed

lemma load_strict_ok:
  assumes "set (map fst sd) = set (map fst md)"
    and "index_errors T [] md sd = [] \<and> size_mismatch T [] md sd = []"
  shows "load_state_dict T md sd True = Inr (copy_params T [] md sd)"
proof -
  have "missing_keys [] md sd = []"
    using assms(1) by (auto simp: missing_keys_def filter_empty_conv map_of_eq_None_iff)
  moreover have "unexpected_keys (map fst md) sd = []"
    using assms(1) by (auto simp: unexpected_keys_def filter_empty_conv)
  ultimately show ?thesis using assms(2) by (simp add: load_state_dict_def)
qed

lemma same_shapes_strict:
  "\<forall>(k, p) \<in> set md. \<forall>v. map_of sd k = Some v \<longrightarrow> shape T v = shape T (pvalue p)
   \<Longrightarrow> index_errors T [] md sd = [] \<and> size_mismatch T [] md sd = []"
  using same_shapes_no_errors [of md sd "[]" T] by simp

lemma copy_params_all_replaced:
  assumes sub: "set (map fst md) \<subseteq> set (map fst sd)"
    and same: "\<forall>(k, p) \<in> set md. \<forall>v. map_of sd k = Some v \<longrightarrow> shape T v = shape T (pvalue p)"
  shows "\<forall>(k, p) \<in> set (copy_params T [] md sd). map_of sd k = Some (pvalue p)"
proof -
  have "\<exists>v. map_of sd k = Some v \<and> load_input T (pvalue p) v = v" if kp: "(k, p) \<in> set md" for k p
  proof -
    from kp have "k \<in> set (map fst md)" by force
    with sub have "k \<in> set (map fst sd)" by blast
    then obtain v where v: "map_of sd k = Some v" using map_of_key_Some by fastforce
    with same kp have "shape T v = shape T (pvalue p)" by blast
    from load_input_same_shape [OF this] v show ?thesis by blast
  qed
  then show ?thesis by (fastforce simp: copy_params_def)
qed

subsection \<open>Claim C7: the strict setters\<close>

text \<open>
  C7. Assigning a named-value mapping to \<^verbatim>\<open>body\<close> or to \<^verbatim>\<open>head\<close> raises an error when
  the mapping lacks a key of that sub-module or has a key the sub-module does not know
  (\<^verbatim>\<open>RuntimeError\<close>, unless the library's indexing of an empty value for a zero-dimensional
  parameter has raised \<^verbatim>\<open>IndexError\<close> before); a mapping with exactly the sub-module's
  keys and with matching shapes succeeds, leaves the other sub-module alone, keeps the names,
  and gives every parameter of the sub-module the value the mapping has for its name.
\<close>

theorem strict_setters:
  "((\<exists>k \<in> set (map fst (body m)). k \<notin> set (map fst sd))
      \<or> (\<exists>k \<in> set (map fst sd). k \<notin> set (map fst (body m)))
     \<longrightarrow> body_setter T m sd
           = Inl (if index_errors T [] (body m) sd = [] then RuntimeError else IndexError))
   \<and> ((\<exists>k \<in> set (map fst (head m)). k \<notin> set (map fst sd))
      \<or> (\<exists>k \<in> set (map fst sd). k \<notin> set (map fst (head m)))
     \<longrightarrow> head_setter T m sd
           = Inl (if index_errors T [] (head m) sd = [] then RuntimeError else IndexError))
   \<and> (set (map fst sd) = set (map fst (body m))
        \<and> (\<forall>(k, p) \<in> set (body m). \<forall>v. map_of sd k = Some v \<longrightarrow> shape T v = shape T (pvalue p))
     \<longrightarrow> (\<exists>m'. body_setter T m sd = Inr m' \<and> head m' = head m
              \<and> map fst (body m') = map fst (body m)
              \<and> (\<forall>(k, p) \<in> set (body m'). map_of sd k = Some (pvalue p))))
   \<and> (set (map fst sd) = set (map fst (head m))
        \<and> (\<forall>(k, p) \<in> set (head m). \<forall>v. map_of sd k = Some v \<longrightarrow> shape T v = shape T (pvalue p))
     \<longrightarrow> (\<exists>m'. head_setter T m sd = Inr m' \<and> body m' = body m
              \<and> map fst (head m') = map fst (head m)
              \<and> (\<forall>(k, p) \<in> set (head m'). map_of sd k = Some (pvalue p))))"
proof (intro conjI impI)
  assume "(\<exists>k \<in> set (map fst (body m)). k \<notin> set (map fst sd))
      \<or> (\<exists>k \<in> set (map fst sd). k \<notin> set (map fst (body m)))"
  then have "load_state_dict T (body m) sd True
               = Inl (if index_errors T [] (body m) sd = [] then RuntimeError else IndexError)"
    using load_strict_missing load_strict_unexpected by blast
  then show "body_setter T m sd
               = Inl (if index_errors T [] (body m) sd = [] then RuntimeError else IndexError)"
    by (simp add: body_setter_def)
next
  assume "(\<exists>k \<in> set (map fst (head m)). k \<notin> set (map fst sd))
      \<or> (\<exists>k \<in> set (map fst sd). k \<notin> set (map fst (head m)))"
  then have "load_state_dict T (head m) sd True
               = Inl (if index_errors T [] (head m) sd = [] then RuntimeError else IndexError)"
    using load_strict_missing load_strict_unexpected by blast
  then show "head_setter T m sd
               = Inl (if index_errors T [] (head m) sd = [] then RuntimeError else IndexError)"
    by (simp add: head_setter_def)
next
  assume a: "set (map fst sd) = set (map fst (body m))
        \<and> (\<forall>(k, p) \<in> set (body m). \<forall>v. map_of sd k = Some v \<longrightarrow> shape T v = shape T (pvalue p))"
  note same = conjunct2 [OF a]
  from a have sub: "set (map fst (body m)) \<subseteq> set (map fst sd)" by simp
  have "body_setter T m sd = Inr (m\<lparr>body := copy_params T [] (body m) sd\<rparr>)"
    using load_strict_ok [OF conjunct1 [OF a] same_shapes_strict [OF same]]
    by (simp add: body_setter_def)
  then show "\<exists>m'. body_setter T m sd = Inr m' \<and> head m' = head m
              \<and> map fst (body m') = map fst (body m)
              \<and> (\<forall>(k, p) \<in> set (body m'). map_of sd k = Some (pvalue p))"
    using copy_params_all_replaced [OF sub same] by (simp add: copy_params_keys)
next
  assume a: "set (map fst sd) = set (map fst (head m))
        \<and> (\<forall>(k, p) \<in> set (head m). \<forall>v. map_of sd k = Some v \<longrightarrow> shape T v = shape T (pvalue p))"
  note same = conjunct2 [OF a]
  from a have sub: "set (map fst (head m)) \<subseteq> set (map fst sd)" by simp
  have "head_setter T m sd = Inr (m\<lparr>head := copy_params T [] (head m) sd\<rparr>)"
    using load_strict_ok [OF conjunct1 [OF a] same_shapes_strict [OF same]]
    by (simp add: head_setter_def)
  then show "\<exists>m'. head_setter T m sd = Inr m' \<and> body m' = body m
              \<and> map fst (head m') = map fst (head m)
              \<and> (\<forall>(k, p) \<in> set (head m'). map_of sd k = Some (pvalue p))"
    using copy_params_all_replaced [OF sub same] by (simp add: copy_params_keys)
qed

theorem strict_setters_witness:
  "body_setter toy_torch toy_model [] = Inl RuntimeError
   \<and> head_setter toy_torch toy_model [(''v'', [5]), (''u'', [0])] = Inl RuntimeError
   \<and> body_setter toy_torch toy_model [(''w'', [5])]
       = Inr (toy_model\<lparr>body := [(''w'', toy_param [5])]\<rparr>)
   \<and> head_setter toy_torch toy_model [(''v'', [6])]
       = Inr (toy_model\<lparr>head := [(''v'', toy_param [6])]\<rparr>)
   \<and> head_setter scalar_torch scalar_model [(''t'', Vector []), (''u'', Scalar 0)]
       = Inl IndexError"
  using strict_setters [of toy_model "[]" toy_torch]
    strict_setters [of toy_model "[(''v'', [5]), (''u'', [0])]" toy_torch]
    strict_setters [of toy_model "[(''w'', [5])]" toy_torch]
    strict_setters [of toy_model "[(''v'', [6])]" toy_torch]
    strict_setters [of scalar_model "[(''t'', Vector []), (''u'', Scalar 0)]" scalar_torch]
  by (simp add: toy_model_def toy_param_def toy_torch_def scalar_model_def scalar_param_def
        scalar_torch_def body_setter_def head_setter_def
        load_state_dict_def size_mismatch_def index_errors_def load_input_def missing_keys_def
        unexpected_keys_def copy_params_def)

subsection \<open>Claim C8: the permissive merge of \<^verbatim>\<open>set_parameters\<close>\<close>

lemma map_of_copy_params:
  "map_of (copy_params T pre md sd) k
     = map_option (\<lambda>p. case map_of sd (pre @ k) of
                         None \<Rightarrow> p
                       | Some v \<Rightarrow> p\<lparr>pvalue := load_input T (pvalue p) v\<rparr>)
         (map_of md k)"
  by (induction md) (auto simp: copy_params_def split: option.splits)

lemma map_of_distinct_mem: "distinct (map fst md) \<Longrightarrow> (k, p) \<in> set md \<Longrightarrow> map_of md k = Some p"
  by simp

lemma merged_lookup:
  assumes "distinct (map fst sd)"
  shows "map_of (od_update d sd) k = (case map_of sd k of Some v \<Rightarrow> Some v | None \<Rightarrow> map_of d k)"
  by (simp add: map_of_od_update map_of_rev_distinct [OF assms] map_add_def)

lemma merged_no_errors:
  assumes sd: "distinct (map fst sd)" and md: "distinct (map fst md)"
    and own: "\<And>k. map_of d (pre @ k) = map_option pvalue (map_of md k)"
    and ld: "\<forall>(k, v) \<in> set sd. \<forall>v0. map_of d k = Some v0 \<longrightarrow> loadable T v0 v"
  shows "index_errors T pre md (od_update d sd) = []
       \<and> size_mismatch T pre md (od_update d sd) = []"
proof -
  have "loadable T (pvalue p) v"
    if kp: "(k, p) \<in> set md" and v: "map_of (od_update d sd) (pre @ k) = Some v" for k p v
  proof -
    have p: "map_of d (pre @ k) = Some (pvalue p)"
      by (simp add: own map_of_distinct_mem [OF md kp])
    show ?thesis
    proof (cases "map_of sd (pre @ k)")
      case None
      with v p have "v = pvalue p" by (simp add: merged_lookup [OF sd])
      then show ?thesis by (simp add: same_shape_loadable)
    next
      case (Some v')
      with v have "v' = v" by (simp add: merged_lookup [OF sd])
      with Some have "(pre @ k, v) \<in> set sd" by (auto dest: map_of_SomeD)
      with ld p show ?thesis by blast
    qed
  qed
  then show ?thesis unfolding no_errors_iff_loadable by blast
qed

lemma merged_error:
  assumes sd: "distinct (map fst sd)"
    and own: "\<And>k. map_of d (pre @ k) = map_option pvalue (map_of md k)"
    and kv: "(pre @ k, v) \<in> set sd" and v0: "map_of md k = Some p"
    and bad: "\<not> loadable T (pvalue p) v"
  shows "\<not> (index_errors T pre md (od_update d sd) = []
           \<and> size_mismatch T pre md (od_update d sd) = [])"
proof -
  from sd kv have "map_of sd (pre @ k) = Some v" by simp
  then have "map_of (od_update d sd) (pre @ k) = Some v" by (simp add: merged_lookup [OF sd])
  moreover from v0 have "(k, p) \<in> set md" by (rule map_of_SomeD)
  ultimately show ?thesis unfolding no_errors_iff_loadable using bad by blast
qed

lemma merged_value:
  assumes sd: "distinct (map fst sd)" and k: "k \<in> set (map fst md)"
    and own: "\<And>k. map_of d (pre @ k) = map_option pvalue (map_of md k)"
  shows "map_option pvalue (map_of (copy_params T pre md (od_update d sd)) k)
           = (case map_of sd (pre @ k) of
                Some v \<Rightarrow> map_option (\<lambda>v0. load_input T v0 v) (map_of d (pre @ k))
              | None \<Rightarrow> map_of d (pre @ k))"
proof -
  from map_of_key_Some [OF k] obtain p where p: "map_of md k = Some p" by blast
  have "load_input T (pvalue p) (pvalue p) = pvalue p" by (simp add: load_input_same_shape)
  then show ?thesis
    by (simp add: map_of_copy_params p merged_lookup [OF sd] own split: option.splits)
qed

lemma merged_param:
  assumes sd: "distinct (map fst sd)" and md: "distinct (map fst md)" and kp: "(k, p) \<in> set md"
    and own: "\<And>k. map_of d (pre @ k) = map_option pvalue (map_of md k)"
  shows "map_of (copy_params T pre md (od_update d sd)) k
           = Some (p\<lparr>pvalue := (case map_of sd (pre @ k) of
                                   Some v \<Rightarrow> load_input T (pvalue p) v
                                 | None \<Rightarrow> pvalue p)\<rparr>)"
proof -
  have p: "map_of md k = Some p" by (rule map_of_distinct_mem [OF md kp])
  have same: "load_input T (pvalue p) (pvalue p) = pvalue p" by (simp add: load_input_same_shape)
  show ?thesis
    by (simp add: map_of_copy_params p merged_lookup [OF sd] own same split: option.splits)
qed

lemma merged_index_errors:
  assumes sd: "distinct (map fst sd)" and md: "distinct (map fst md)"
    and own: "\<And>k. map_of d (pre @ k) = map_option pvalue (map_of md k)"
  shows "index_errors T pre md (od_update d sd) = []
           \<longleftrightarrow> \<not> (\<exists>(k, v) \<in> set sd. \<exists>k' p. k = pre @ k' \<and> map_of md k' = Some p
                                    \<and> shape T (pvalue p) = [] \<and> shape T v = [0])"
proof
  assume ie: "index_errors T pre md (od_update d sd) = []"
  show "\<not> (\<exists>(k, v) \<in> set sd. \<exists>k' p. k = pre @ k' \<and> map_of md k' = Some p
                                    \<and> shape T (pvalue p) = [] \<and> shape T v = [0])"
  proof
    assume "\<exists>(k, v) \<in> set sd. \<exists>k' p. k = pre @ k' \<and> map_of md k' = Some p
                                    \<and> shape T (pvalue p) = [] \<and> shape T v = [0]"
    then obtain v k' p where kv: "(pre @ k', v) \<in> set sd" and p: "map_of md k' = Some p"
      and sh: "shape T (pvalue p) = []" "shape T v = [0]"
      by blast
    from sd kv have "map_of sd (pre @ k') = Some v" by simp
    then have "map_of (od_update d sd) (pre @ k') = Some v" by (simp add: merged_lookup [OF sd])
    moreover from p have "(k', p) \<in> set md" by (rule map_of_SomeD)
    ultimately show False using ie sh unfolding index_errors_Nil_iff by blast
  qed
next
  assume no: "\<not> (\<exists>(k, v) \<in> set sd. \<exists>k' p. k = pre @ k' \<and> map_of md k' = Some p
                                    \<and> shape T (pvalue p) = [] \<and> shape T v = [0])"
  have "\<not> (shape T (pvalue p) = [] \<and> shape T v = [0])"
    if kp: "(k, p) \<in> set md" and v: "map_of (od_update d sd) (pre @ k) = Some v" for k p v
  proof (cases "map_of sd (pre @ k)")
    case None
    have "map_of d (pre @ k) = Some (pvalue p)"
      by (simp add: own map_of_distinct_mem [OF md kp])
    with v None have "v = pvalue p" by (simp add: merged_lookup [OF sd])
    then show ?thesis by simp
  next
    case (Some v')
    with v have "v' = v" by (simp add: merged_lookup [OF sd])
    with Some have "(pre @ k, v) \<in> set sd" by (auto dest: map_of_SomeD)
    moreover have "map_of md k = Some p" by (rule map_of_distinct_mem [OF md kp])
    ultimately show ?thesis using no by blast
  qed
  then show "index_errors T pre md (od_update d sd) = []"
    unfolding index_errors_Nil_iff by blast
qed

lemma model_key_cases:
  assumes "map_of (model_state_dict m) k = Some v0"
  shows "(\<exists>k' p. k = ''_body.'' @ k' \<and> map_of (body m) k' = Some p \<and> pvalue p = v0)
       \<or> (\<exists>k' p. k = ''_head.'' @ k' \<and> map_of (head m) k' = Some p \<and> pvalue p = v0)"
proof -
  from assms have "k \<in> set (map fst (model_state_dict m))"
    by (metis map_of_eq_None_iff option.distinct(1) set_map)
  then consider k' where "k = ''_body.'' @ k'" | k' where "k = ''_head.'' @ k'"
    unfolding keys_model_state_dict by auto
  then show ?thesis
  proof cases
    case 1
    with assms have "map_option pvalue (map_of (body m) k') = Some v0"
      by (simp only: map_of_model_state_dict_body)
    with 1 show ?thesis by auto
  next
    case 2
    with assms have "map_option pvalue (map_of (head m) k') = Some v0"
      by (simp only: map_of_model_state_dict_head)
    with 2 show ?thesis by auto
  qed
qed

text \<open>
  C8 (amended). \<^verbatim>\<open>set_parameters\<close> merges permissively as far as keys go and checks every
  value it writes. For every input mapping whose values at the keys of the model's state have
  the shapes of the model's tensors, the call succeeds: the state keeps its keys, a key of
  the state that the input has takes the supplied value, a key the input lacks keeps its
  value, and keys of the input that the model does not know are ignored. More generally
  the call succeeds exactly when every such value can be loaded, where the library accepts,
  besides a value of the tensor's shape, a one-dimensional value with a first element for a
  zero-dimensional tensor and stores that element; when some value at a key of the state
  cannot be loaded, the call raises: \<^verbatim>\<open>IndexError\<close> when the input has a
  one-dimensional value without elements for a zero-dimensional tensor, \<^verbatim>\<open>RuntimeError\<close>
  otherwise. (Keys are unique within a dictionary and within a module.)
\<close>

theorem set_parameters_permissive:
  assumes sd: "distinct (map fst sd)"
    and db: "distinct (map fst (body m))" and dh: "distinct (map fst (head m))"
  shows "((\<forall>(k, v) \<in> set sd. \<forall>v0. map_of (model_state_dict m) k = Some v0
                                  \<longrightarrow> shape T v = shape T v0)
          \<longrightarrow> (\<exists>m'. set_parameters T m sd = Inr m'
                 \<and> map fst (model_state_dict m') = map fst (model_state_dict m)
                 \<and> (\<forall>k \<in> set (map fst (model_state_dict m)).
                       map_of (model_state_dict m') k
                         = (case map_of sd k of
                              Some v \<Rightarrow> Some v
                            | None \<Rightarrow> map_of (model_state_dict m) k))
                 \<and> map fst (body m') = map fst (body m)
                 \<and> map fst (head m') = map fst (head m)
                 \<and> (\<forall>(k, p) \<in> set (body m).
                       map_of (body m') k
                         = Some (p\<lparr>pvalue := (case map_of sd (''_body.'' @ k) of
                                                 Some v \<Rightarrow> v
                                               | None \<Rightarrow> pvalue p)\<rparr>))
                 \<and> (\<forall>(k, p) \<in> set (head m).
                       map_of (head m') k
                         = Some (p\<lparr>pvalue := (case map_of sd (''_head.'' @ k) of
                                                 Some v \<Rightarrow> v
                                               | None \<Rightarrow> pvalue p)\<rparr>))))
       \<and> ((\<forall>(k, v) \<in> set sd. \<forall>v0. map_of (model_state_dict m) k = Some v0
                                  \<longrightarrow> loadable T v0 v)
          \<longrightarrow> (\<exists>m'. set_parameters T m sd = Inr m'
                 \<and> map fst (model_state_dict m') = map fst (model_state_dict m)
                 \<and> (\<forall>k \<in> set (map fst (model_state_dict m)).
                       map_of (model_state_dict m') k
                         = (case map_of sd k of
                              Some v \<Rightarrow> map_option (\<lambda>v0. load_input T v0 v)
                                          (map_of (model_state_dict m) k)
                            | None \<Rightarrow> map_of (model_state_dict m) k))
                 \<and> map fst (body m') = map fst (body m)
                 \<and> map fst (head m') = map fst (head m)
                 \<and> (\<forall>(k, p) \<in> set (body m).
                       map_of (body m') k
                         = Some (p\<lparr>pvalue := (case map_of sd (''_body.'' @ k) of
                                                 Some v \<Rightarrow> load_input T (pvalue p) v
                                               | None \<Rightarrow> pvalue p)\<rparr>))
                 \<and> (\<forall>(k, p) \<in> set (head m).
                       map_of (head m') k
                         = Some (p\<lparr>pvalue := (case map_of sd (''_head.'' @ k) of
                                                 Some v \<Rightarrow> load_input T (pvalue p) v
                                               | None \<Rightarrow> pvalue p)\<rparr>))))
       \<and> ((\<exists>(k, v) \<in> set sd. \<exists>v0. map_of (model_state_dict m) k = Some v0
                                  \<and> \<not> loadable T v0 v)
          \<longrightarrow> set_parameters T m sd
                = Inl (if \<exists>(k, v) \<in> set sd. \<exists>v0. map_of (model_state_dict m) k = Some v0
                                                \<and> shape T v0 = [] \<and> shape T v = [0]
                       then IndexError else RuntimeError))"
proof -
  let ?d = "model_state_dict m"
  let ?m' = "m\<lparr>body := copy_params T ''_body.'' (body m) (od_update ?d sd),
               head := copy_params T ''_head.'' (head m) (od_update ?d sd)\<rparr>"
  have keys: "map fst (model_state_dict ?m') = map fst ?d"
    by (simp add: keys_model_state_dict copy_params_keys)
  have bkeys: "map fst (body ?m') = map fst (body m)"
    and hkeys: "map fst (head ?m') = map fst (head m)"
    by (simp_all add: copy_params_keys)
  have val: "map_of (model_state_dict ?m') k
               = (case map_of sd k of
                    Some v \<Rightarrow> map_option (\<lambda>v0. load_input T v0 v) (map_of ?d k)
                  | None \<Rightarrow> map_of ?d k)"
    if k: "k \<in> set (map fst ?d)" for k
  proof -
    from k consider k' where "k = ''_body.'' @ k'" "k' \<in> set (map fst (body m))"
      | k' where "k = ''_head.'' @ k'" "k' \<in> set (map fst (head m))"
      unfolding keys_model_state_dict by auto
    then show ?thesis
    proof cases
      case 1
      have "map_of (model_state_dict ?m') (''_body.'' @ k')
              = map_option pvalue
                  (map_of (copy_params T ''_body.'' (body m) (od_update ?d sd)) k')"
        by (simp only: map_of_model_state_dict_body) simp
      then show ?thesis
        using merged_value [OF sd 1(2) map_of_model_state_dict_body] by (simp only: 1(1))
    next
      case 2
      have "map_of (model_state_dict ?m') (''_head.'' @ k')
              = map_option pvalue
                  (map_of (copy_params T ''_head.'' (head m) (od_update ?d sd)) k')"
        by (simp only: map_of_model_state_dict_head) simp
      then show ?thesis
        using merged_value [OF sd 2(2) map_of_model_state_dict_head] by (simp only: 2(1))
    qed
  qed
  have bpar: "map_of (body ?m') k
                = Some (p\<lparr>pvalue := (case map_of sd (''_body.'' @ k) of
                                        Some v \<Rightarrow> load_input T (pvalue p) v
                                      | None \<Rightarrow> pvalue p)\<rparr>)"
    if "(k, p) \<in> set (body m)" for k p
    using merged_param [OF sd db that map_of_model_state_dict_body] by simp
  have hpar: "map_of (head ?m') k
                = Some (p\<lparr>pvalue := (case map_of sd (''_head.'' @ k) of
                                        Some v \<Rightarrow> load_input T (pvalue p) v
                                      | None \<Rightarrow> pvalue p)\<rparr>)"
    if "(k, p) \<in> set (head m)" for k p
    using merged_param [OF sd dh that map_of_model_state_dict_head] by simp
  have res: "set_parameters T m sd = Inr ?m'"
    if ld: "\<forall>(k, v) \<in> set sd. \<forall>v0. map_of ?d k = Some v0 \<longrightarrow> loadable T v0 v"
  proof -
    have b: "index_errors T ''_body.'' (body m) (od_update ?d sd) = []
           \<and> size_mismatch T ''_body.'' (body m) (od_update ?d sd) = []"
      by (rule merged_no_errors [OF sd db map_of_model_state_dict_body ld])
    have h: "index_errors T ''_head.'' (head m) (od_update ?d sd) = []
           \<and> size_mismatch T ''_head.'' (head m) (od_update ?d sd) = []"
      by (rule merged_no_errors [OF sd dh map_of_model_state_dict_head ld])
    show ?thesis by (simp add: set_parameters_eq b h)
  qed
  have general: "\<exists>m'. set_parameters T m sd = Inr m'
                 \<and> map fst (model_state_dict m') = map fst ?d
                 \<and> (\<forall>k \<in> set (map fst ?d).
                       map_of (model_state_dict m') k
                         = (case map_of sd k of
                              Some v \<Rightarrow> map_option (\<lambda>v0. load_input T v0 v) (map_of ?d k)
                            | None \<Rightarrow> map_of ?d k))
                 \<and> map fst (body m') = map fst (body m)
                 \<and> map fst (head m') = map fst (head m)
                 \<and> (\<forall>(k, p) \<in> set (body m).
                       map_of (body m') k
                         = Some (p\<lparr>pvalue := (case map_of sd (''_body.'' @ k) of
                                                 Some v \<Rightarrow> load_input T (pvalue p) v
                                               | None \<Rightarrow> pvalue p)\<rparr>))
                 \<and> (\<forall>(k, p) \<in> set (head m).
                       map_of (head m') k
                         = Some (p\<lparr>pvalue := (case map_of sd (''_head.'' @ k) of
                                                 Some v \<Rightarrow> load_input T (pvalue p) v
                                               | None \<Rightarrow> pvalue p)\<rparr>))"
    if ld: "\<forall>(k, v) \<in> set sd. \<forall>v0. map_of ?d k = Some v0 \<longrightarrow> loadable T v0 v"
  proof (intro exI [of _ ?m'] conjI ballI)
    show "set_parameters T m sd = Inr ?m'" by (rule res [OF ld])
    show "map fst (model_state_dict ?m') = map fst ?d" by (rule keys)
    show "map fst (body ?m') = map fst (body m)" by (rule bkeys)
    show "map fst (head ?m') = map fst (head m)" by (rule hkeys)
  next
    fix k assume "k \<in> set (map fst ?d)"
    then show "map_of (model_state_dict ?m') k
                 = (case map_of sd k of
                      Some v \<Rightarrow> map_option (\<lambda>v0. load_input T v0 v) (map_of ?d k)
                    | None \<Rightarrow> map_of ?d k)"
      by (rule val)
  next
    fix x assume x: "x \<in> set (body m)"
    obtain k p where kp: "x = (k, p)" by (cases x)
    from bpar [of k p] x kp
    show "case x of (k, p) \<Rightarrow>
            map_of (body ?m') k
              = Some (p\<lparr>pvalue := (case map_of sd (''_body.'' @ k) of
                                      Some v \<Rightarrow> load_input T (pvalue p) v
                                    | None \<Rightarrow> pvalue p)\<rparr>)"
      by simp
  next
    fix x assume x: "x \<in> set (head m)"
    obtain k p where kp: "x = (k, p)" by (cases x)
    from hpar [of k p] x kp
    show "case x of (k, p) \<Rightarrow>
            map_of (head ?m') k
              = Some (p\<lparr>pvalue := (case map_of sd (''_head.'' @ k) of
                                      Some v \<Rightarrow> load_input T (pvalue p) v
                                    | None \<Rightarrow> pvalue p)\<rparr>)"
      by simp
  qed
  have plain: "\<exists>m'. set_parameters T m sd = Inr m'
                 \<and> map fst (model_state_dict m') = map fst ?d
                 \<and> (\<forall>k \<in> set (map fst ?d).
                       map_of (model_state_dict m') k
                         = (case map_of sd k of Some v \<Rightarrow> Some v | None \<Rightarrow> map_of ?d k))
                 \<and> map fst (body m') = map fst (body m)
                 \<and> map fst (head m') = map fst (head m)
                 \<and> (\<forall>(k, p) \<in> set (body m).
                       map_of (body m') k
                         = Some (p\<lparr>pvalue := (case map_of sd (''_body.'' @ k) of
                                                 Some v \<Rightarrow> v
                                               | None \<Rightarrow> pvalue p)\<rparr>))
                 \<and> (\<forall>(k, p) \<in> set (head m).
                       map_of (head m') k
                         = Some (p\<lparr>pvalue := (case map_of sd (''_head.'' @ k) of
                                                 Some v \<Rightarrow> v
                                               | None \<Rightarrow> pvalue p)\<rparr>))"
    if same: "\<forall>(k, v) \<in> set sd. \<forall>v0. map_of ?d k = Some v0 \<longrightarrow> shape T v = shape T v0"
  proof (intro exI [of _ ?m'] conjI ballI)
    from same have ld: "\<forall>(k, v) \<in> set sd. \<forall>v0. map_of ?d k = Some v0 \<longrightarrow> loadable T v0 v"
      using same_shape_loadable by fastforce
    show "set_parameters T m sd = Inr ?m'" by (rule res [OF ld])
    show "map fst (model_state_dict ?m') = map fst ?d" by (rule keys)
    show "map fst (body ?m') = map fst (body m)" by (rule bkeys)
    show "map fst (head ?m') = map fst (head m)" by (rule hkeys)
  next
    fix k assume k: "k \<in> set (map fst ?d)"
    note vk = val [OF k]
    show "map_of (model_state_dict ?m') k
            = (case map_of sd k of Some v \<Rightarrow> Some v | None \<Rightarrow> map_of ?d k)"
    proof (cases "map_of sd k")
      case None
      with vk show ?thesis by simp
    next
      case (Some v)
      from map_of_key_Some [OF k] obtain v0 where v0: "map_of ?d k = Some v0" by blast
      from Some have "(k, v) \<in> set sd" by (rule map_of_SomeD)
      with same v0 have "shape T v = shape T v0" by blast
      from load_input_same_shape [OF this] vk Some v0 show ?thesis by simp
    qed
  next
    fix x assume x: "x \<in> set (body m)"
    obtain k p where kp: "x = (k, p)" by (cases x)
    from x kp have mem: "(k, p) \<in> set (body m)" by simp
    have "(case map_of sd (''_body.'' @ k) of
             Some v \<Rightarrow> load_input T (pvalue p) v | None \<Rightarrow> pvalue p)
          = (case map_of sd (''_body.'' @ k) of Some v \<Rightarrow> v | None \<Rightarrow> pvalue p)"
    proof (cases "map_of sd (''_body.'' @ k)")
      case None
      then show ?thesis by simp
    next
      case (Some v)
      then have "(''_body.'' @ k, v) \<in> set sd" by (rule map_of_SomeD)
      moreover have "map_of ?d (''_body.'' @ k) = Some (pvalue p)"
        by (simp only: map_of_model_state_dict_body map_of_distinct_mem [OF db mem] option.map)
      ultimately have "shape T v = shape T (pvalue p)" using same by blast
      from load_input_same_shape [OF this] Some show ?thesis by simp
    qed
    with bpar [OF mem] kp
    show "case x of (k, p) \<Rightarrow>
            map_of (body ?m') k
              = Some (p\<lparr>pvalue := (case map_of sd (''_body.'' @ k) of
                                      Some v \<Rightarrow> v
                                    | None \<Rightarrow> pvalue p)\<rparr>)"
      by simp
  next
    fix x assume x: "x \<in> set (head m)"
    obtain k p where kp: "x = (k, p)" by (cases x)
    from x kp have mem: "(k, p) \<in> set (head m)" by simp
    have "(case map_of sd (''_head.'' @ k) of
             Some v \<Rightarrow> load_input T (pvalue p) v | None \<Rightarrow> pvalue p)
          = (case map_of sd (''_head.'' @ k) of Some v \<Rightarrow> v | None \<Rightarrow> pvalue p)"
    proof (cases "map_of sd (''_head.'' @ k)")
      case None
      then show ?thesis by simp
    next
      case (Some v)
      then have "(''_head.'' @ k, v) \<in> set sd" by (rule map_of_SomeD)
      moreover have "map_of ?d (''_head.'' @ k) = Some (pvalue p)"
        by (simp only: map_of_model_state_dict_head map_of_distinct_mem [OF dh mem] option.map)
      ultimately have "shape T v = shape T (pvalue p)" using same by blast
      from load_input_same_shape [OF this] Some show ?thesis by simp
    qed
    with hpar [OF mem] kp
    show "case x of (k, p) \<Rightarrow>
            map_of (head ?m') k
              = Some (p\<lparr>pvalue := (case map_of sd (''_head.'' @ k) of
                                      Some v \<Rightarrow> v
                                    | None \<Rightarrow> pvalue p)\<rparr>)"
      by simp
  qed
  have failure: "set_parameters T m sd
                = Inl (if \<exists>(k, v) \<in> set sd. \<exists>v0. map_of ?d k = Some v0
                                                \<and> shape T v0 = [] \<and> shape T v = [0]
                       then IndexError else RuntimeError)"
    if bad: "\<exists>(k, v) \<in> set sd. \<exists>v0. map_of ?d k = Some v0 \<and> \<not> loadable T v0 v"
  proof -
    let ?ie = "\<exists>(k, v) \<in> set sd. \<exists>v0. map_of ?d k = Some v0
                                   \<and> shape T v0 = [] \<and> shape T v = [0]"
    let ?ieb = "\<exists>(k, v) \<in> set sd. \<exists>k' p. k = ''_body.'' @ k' \<and> map_of (body m) k' = Some p
                                    \<and> shape T (pvalue p) = [] \<and> shape T v = [0]"
    let ?ieh = "\<exists>(k, v) \<in> set sd. \<exists>k' p. k = ''_head.'' @ k' \<and> map_of (head m) k' = Some p
                                    \<and> shape T (pvalue p) = [] \<and> shape T v = [0]"
    from bad obtain k v v0 where kv: "(k, v) \<in> set sd" and v0: "map_of ?d k = Some v0"
      and nl: "\<not> loadable T v0 v"
      by blast
    from model_key_cases [OF v0]
    have err: "\<not> (index_errors T ''_body.'' (body m) (od_update ?d sd) = []
             \<and> size_mismatch T ''_body.'' (body m) (od_update ?d sd) = [])
        \<or> \<not> (index_errors T ''_head.'' (head m) (od_update ?d sd) = []
             \<and> size_mismatch T ''_head.'' (head m) (od_update ?d sd) = [])"
    proof
      assume "\<exists>k' p. k = ''_body.'' @ k' \<and> map_of (body m) k' = Some p \<and> pvalue p = v0"
      then obtain k' p where "k = ''_body.'' @ k'" "map_of (body m) k' = Some p" "pvalue p = v0"
        by blast
      with merged_error [OF sd map_of_model_state_dict_body, of k' v m p T] kv nl
      show ?thesis by simp
    next
      assume "\<exists>k' p. k = ''_head.'' @ k' \<and> map_of (head m) k' = Some p \<and> pvalue p = v0"
      then obtain k' p where "k = ''_head.'' @ k'" "map_of (head m) k' = Some p" "pvalue p = v0"
        by blast
      with merged_error [OF sd map_of_model_state_dict_head, of k' v m p T] kv nl
      show ?thesis by simp
    qed
    have ieb: "index_errors T ''_body.'' (body m) (od_update ?d sd) = [] \<longleftrightarrow> \<not> ?ieb"
      by (rule merged_index_errors [OF sd db map_of_model_state_dict_body])
    have ieh: "index_errors T ''_head.'' (head m) (od_update ?d sd) = [] \<longleftrightarrow> \<not> ?ieh"
      by (rule merged_index_errors [OF sd dh map_of_model_state_dict_head])
    have cond: "?ie \<longleftrightarrow> ?ieb \<or> ?ieh"
    proof
      assume ?ie
      then obtain k v v0 where kv: "(k, v) \<in> set sd" and v0: "map_of ?d k = Some v0"
        and sh: "shape T v0 = []" "shape T v = [0]"
        by blast
      from model_key_cases [OF v0] kv sh show "?ieb \<or> ?ieh" by blast
    next
      assume "?ieb \<or> ?ieh"
      then show ?ie
      proof
        assume ?ieb
        then obtain v k' p where kv: "(''_body.'' @ k', v) \<in> set sd"
          and p: "map_of (body m) k' = Some p"
          and sh: "shape T (pvalue p) = []" "shape T v = [0]"
          by blast
        from p have "map_of ?d (''_body.'' @ k') = Some (pvalue p)"
          by (simp only: map_of_model_state_dict_body option.map)
        with kv sh show ?ie by blast
      next
        assume ?ieh
        then obtain v k' p where kv: "(''_head.'' @ k', v) \<in> set sd"
          and p: "map_of (head m) k' = Some p"
          and sh: "shape T (pvalue p) = []" "shape T v = [0]"
          by blast
        from p have "map_of ?d (''_head.'' @ k') = Some (pvalue p)"
          by (simp only: map_of_model_state_dict_head option.map)
        with kv sh show ?ie by blast
      qed
    qed
    show ?thesis
    proof (cases ?ie)
      case True
      with cond ieb ieh
      have "\<not> (index_errors T ''_body.'' (body m) (od_update ?d sd) = []
               \<and> index_errors T ''_head.'' (head m) (od_update ?d sd) = [])"
        by blast
      then have "set_parameters T m sd = Inl IndexError" by (simp add: set_parameters_eq)
      with True show ?thesis by (simp only: if_True)
    next
      case False
      with cond ieb ieh
      have ie: "index_errors T ''_body.'' (body m) (od_update ?d sd) = []
               \<and> index_errors T ''_head.'' (head m) (od_update ?d sd) = []"
        by blast
      with err have sm: "\<not> (size_mismatch T ''_body.'' (body m) (od_update ?d sd) = []
               \<and> size_mismatch T ''_head.'' (head m) (od_update ?d sd) = [])"
        by blast
      have "set_parameters T m sd = Inl RuntimeError"
        unfolding set_parameters_eq using ie sm by simp
      with False show ?thesis by (simp only: if_False)
    qed
  qed
  from plain general failure show ?thesis by blast
qed

theorem set_parameters_permissive_witness:
  "set_parameters toy_torch toy_model [(''_head.v'', [9]), (''extra'', [0, 0])]
     = Inr (toy_model\<lparr>head := [(''v'', toy_param [9])]\<rparr>)
   \<and> set_parameters scalar_torch scalar_model [(''_head.t'', Vector [5, 6])]
     = Inr (scalar_model\<lparr>head := [(''t'', scalar_param (Scalar 5))]\<rparr>)
   \<and> set_parameters scalar_torch scalar_model [(''_body.w'', Scalar 3)] = Inl RuntimeError
   \<and> set_parameters scalar_torch scalar_model [(''_head.t'', Vector [])] = Inl IndexError"
proof -
  have d: "distinct (map fst [(''_head.v'', [9::rat]), (''extra'', [0, 0])])" by simp
  have db: "distinct (map fst (body toy_model))" and dh: "distinct (map fst (head toy_model))"
    by (simp_all add: toy_model_def)
  have sb: "distinct (map fst (body scalar_model))"
    and sh: "distinct (map fst (head scalar_model))"
    by (simp_all add: scalar_model_def)
  have d1: "distinct (map fst [(''_head.t'', Vector [5, 6])])"
    and d2: "distinct (map fst [(''_body.w'', Scalar 3)])"
    and d3: "distinct (map fst [(''_head.t'', Vector [])])"
    by simp_all
  show ?thesis
    using set_parameters_permissive [OF d db dh, of toy_torch]
      set_parameters_permissive [OF d1 sb sh, of scalar_torch]
      set_parameters_permissive [OF d2 sb sh, of scalar_torch]
      set_parameters_permissive [OF d3 sb sh, of scalar_torch]
    by (simp add: toy_model_def toy_param_def toy_torch_def scalar_model_def scalar_param_def
          scalar_torch_def model_state_dict_def prefixed_def state_dict_of_def
          set_parameters_eq od_update_def size_mismatch_def index_errors_def load_input_def
          copy_params_def)
qed

text \<open>
  C8 as stated, for every input mapping, fails: a value of another shape at a key of the
  model's state is not written, the call raises.
\<close>

theorem set_parameters_shape_counterexample:
  "set_parameters toy_torch toy_model [(''_body.w'', [1, 2])] = Inl RuntimeError"
  by (simp add: toy_model_def toy_param_def toy_torch_def model_state_dict_def prefixed_def
        state_dict_of_def set_parameters_eq od_update_def size_mismatch_def index_errors_def
        load_input_def)

subsection \<open>Loading and saving the client state\<close>

lemma load_client_state_absent:
  "client_save_path mg = None \<or> (\<exists>p. client_save_path mg = Some p \<and> fs p = None)
   \<Longrightarrow> load_client_state T fs mg = Inr mg"
  by (auto simp: load_client_state_def)

lemma load_client_state_frame:
  "load_client_state T fs mg = Inr mg1
   \<Longrightarrow> mconfig mg1 = mconfig mg \<and> trainloader mg1 = trainloader mg
       \<and> testloader mg1 = testloader mg \<and> client_save_path mg1 = client_save_path mg
       \<and> learning_rate mg1 = learning_rate mg \<and> body (model mg1) = body (model mg)"
  by (auto simp: load_client_state_def ebind_eq_Inr split: option.splits)

lemma train_epochs_no_batches:
  "batches loader = []
   \<Longrightarrow> \<exists>st'. train_epochs T nl loader st is = Inr st'
           \<and> ts_loss st' = ts_loss st \<and> ts_correct st' = ts_correct st \<and> ts_total st' = ts_total st"
proof (induction "is" arbitrary: st)
  case Nil
  show ?case by simp
next
  case (Cons i "is")
  let ?st1 = "st\<lparr>ts_model := (if i < nl then enable_head (disable_body (ts_model st))
                              else disable_head (enable_body (ts_model st)))\<rparr>"
  from Cons.IH [OF Cons.prems, of ?st1] Cons.prems show ?case
    by (simp add: Let_def)
qed

lemma train_loop_no_steps:
  fixes T :: "('t, 'b, 'l) torch" and mg :: "('t, 'b) ModelManager"
  assumes "batches (trainloader mg) = [] \<or> (nl = 0 \<and> nr = 0)"
  shows "\<exists>st. train_loop T nl nr mg = Inr st
           \<and> ts_loss st = FloatZero \<and> ts_correct st = 0 \<and> ts_total st = 0"
proof -
  let ?st0 = "\<lparr>ts_model = (model mg)\<lparr>training := True\<rparr>,
               ts_opt = SGD_new (learning_rate mg) (1 / 2),
               ts_loss = FloatZero, ts_correct = 0, ts_total = 0\<rparr>
                :: ('t, 'l) train_state"
  from assms show ?thesis
  proof
    assume "batches (trainloader mg) = []"
    from train_epochs_no_batches [OF this, of T nl ?st0 "py_range (nl + nr)"]
    show ?thesis by (simp add: train_loop_def Let_def)
  next
    assume "nl = 0 \<and> nr = 0"
    then show ?thesis by (simp add: train_loop_def py_range_def)
  qed
qed


subsection \<open>Claim C10: \<^verbatim>\<open>train\<close> without a single step\<close>

text \<open>
  C10. If the training loader yields no batches, or both resolved epoch counts are zero,
  \<^verbatim>\<open>train\<close> returns no metrics, it fails. When the client state loads, the loop and the
  write of the client state complete with the variable \<^verbatim>\<open>loss\<close> still the float \<^verbatim>\<open>0.0\<close>
  and both counters zero, so that \<^verbatim>\<open>loss.item()\<close> raises \<^verbatim>\<open>AttributeError\<close>, which is
  the error of the call, and \<^verbatim>\<open>correct / total\<close> is zero divided by zero.
\<close>

theorem train_without_steps_fails:
  assumes "batches (trainloader mg) = []
           \<or> (config_or (num_local_epochs (mconfig mg)) (DEFAULT_LOCAL_TRAIN_EPOCHS D) = 0
              \<and> config_or (num_rep_epochs (mconfig mg)) (DEFAULT_REPRESENTATION_EPOCHS D) = 0)"
  shows "(\<exists>e. train T D fs mg = Inl e)
       \<and> (\<forall>mg1. load_client_state T fs mg = Inr mg1 \<longrightarrow>
             train T D fs mg = Inl AttributeError
             \<and> (\<exists>st mg2 fs2. train_run T D fs mg = Inr (st, mg2, fs2)
                    \<and> ts_loss st = FloatZero \<and> ts_correct st = 0 \<and> ts_total st = 0
                    \<and> item (ts_loss st) = Inl AttributeError
                    \<and> py_div (ts_correct st) (ts_total st) = Inl ZeroDivisionError))"
proof -
  have main: "train T D fs mg = Inl AttributeError
             \<and> (\<exists>st mg2 fs2. train_run T D fs mg = Inr (st, mg2, fs2)
                    \<and> ts_loss st = FloatZero \<and> ts_correct st = 0 \<and> ts_total st = 0
                    \<and> item (ts_loss st) = Inl AttributeError
                    \<and> py_div (ts_correct st) (ts_total st) = Inl ZeroDivisionError)"
    if l: "load_client_state T fs mg = Inr mg1" for mg1
  proof -
    let ?nl = "config_or (num_local_epochs (mconfig mg1)) (DEFAULT_LOCAL_TRAIN_EPOCHS D)"
    let ?nr = "config_or (num_rep_epochs (mconfig mg1)) (DEFAULT_REPRESENTATION_EPOCHS D)"
    from load_client_state_frame [OF l] assms
    have "batches (trainloader mg1) = [] \<or> (?nl = 0 \<and> ?nr = 0)" by simp
    from train_loop_no_steps [OF this, of T] obtain st where
      st: "train_loop T ?nl ?nr mg1 = Inr st" "ts_loss st = FloatZero"
          "ts_correct st = 0" "ts_total st = 0"
      by blast
    have run: "train_run T D fs mg
                 = Inr (st, mg1\<lparr>model := ts_model st\<rparr>,
                        save_client_state fs (mg1\<lparr>model := ts_model st\<rparr>))"
      by (simp add: train_run_def l train_loaded_def Let_def st(1))
    have "train T D fs mg = Inl AttributeError"
      by (simp add: train_def run train_return_def item_def st(2))
    with run st show ?thesis by (simp add: item_def py_div_def)
  qed
  show ?thesis
  proof (cases "load_client_state T fs mg")
    case (Inl e)
    then show ?thesis by (simp add: train_def train_run_def)
  next
    case (Inr mg1)
    with main [OF Inr] show ?thesis by simp
  qed
qed

theorem train_without_steps_fails_witness:
  "train toy_torch toy_constants no_files (toy_manager (toy_config (Some 0) (Some 0) None))
     = Inl AttributeError"
proof -
  have h: "batches (trainloader (toy_manager (toy_config (Some 0) (Some 0) None))) = []
           \<or> (config_or (num_local_epochs (mconfig (toy_manager (toy_config (Some 0) (Some 0) None))))
                 (DEFAULT_LOCAL_TRAIN_EPOCHS toy_constants) = 0
              \<and> config_or (num_rep_epochs (mconfig (toy_manager (toy_config (Some 0) (Some 0) None))))
                 (DEFAULT_REPRESENTATION_EPOCHS toy_constants) = 0)"
    by (simp add: toy_manager_def toy_config_def config_or_def)
  have l: "load_client_state toy_torch no_files (toy_manager (toy_config (Some 0) (Some 0) None))
             = Inr (toy_manager (toy_config (Some 0) (Some 0) None))"
    by (simp add: load_client_state_def no_files_def toy_manager_def)
  from train_without_steps_fails [OF h, of toy_torch no_files] l show ?thesis by blast
qed

subsection \<open>Claim C4: \<^verbatim>\<open>test\<close> on an empty test set\<close>

lemma eval_batches_total:
  "snd (snd (eval_batches T m (l, c, t) bs)) = t + sum_list (map (n_labels T) bs)"
  by (induction bs arbitrary: l c t) simp_all

lemma test_loaded_divisions:
  assumes f: "finetune T (config_or (num_finetune_epochs (mconfig mg1))
                             (DEFAULT_FINETUNE_EPOCHS D)) mg1 = Inr m1"
  shows "(test_loaded T D mg1 = Inl ZeroDivisionError
            \<longleftrightarrow> dataset_len (testloader mg1) = 0
                \<or> sum_list (map (n_labels T) (batches (testloader mg1))) = 0)
       \<and> (dataset_len (testloader mg1) \<noteq> 0
            \<and> sum_list (map (n_labels T) (batches (testloader mg1))) \<noteq> 0
          \<longrightarrow> (\<exists>r. test_loaded T D mg1 = Inr r))"
proof -
  obtain l c t where ev: "eval_batches T (m1\<lparr>training := False\<rparr>) (f_zero T, 0, 0)
                            (batches (testloader mg1)) = (l, c, t)"
    by (cases "eval_batches T (m1\<lparr>training := False\<rparr>) (f_zero T, 0, 0)
                 (batches (testloader mg1))") auto
  from eval_batches_total [of T "m1\<lparr>training := False\<rparr>" "f_zero T" 0 0
      "batches (testloader mg1)"]
  have t: "t = sum_list (map (n_labels T) (batches (testloader mg1)))"
    by (simp add: ev)
  show ?thesis
    by (simp add: test_loaded_def f Let_def ev float_div_def py_div_def t)
qed

text \<open>
  C4 as stated fails: on an empty test loader over an empty dataset \<^verbatim>\<open>test\<close>
  raises \<^verbatim>\<open>ZeroDivisionError\<close>.
\<close>

theorem test_empty_counterexample:
  "test toy_torch toy_constants no_files
     ((toy_manager (toy_config None None (Some 0)))\<lparr>testloader := \<lparr>batches = [], dataset_len = 0\<rparr>\<rparr>)
     = Inl ZeroDivisionError"
  by (simp add: test_def load_client_state_def no_files_def toy_manager_def toy_config_def
        test_loaded_def config_or_def finetune_def float_div_def)

text \<open>
  C4 (amended). Neither division of \<^verbatim>\<open>test\<close> is guarded. For a manager whose test
  dataset has no example, or whose test loader yields no label (no batch in particular),
  \<^verbatim>\<open>test\<close> returns no metrics, it raises. When the client state loads and the
  fine-tuning completes, the call raises \<^verbatim>\<open>ZeroDivisionError\<close> exactly when the dataset
  size is zero (the divisor of the loss sum) or the number of labels counted over the test
  loader is zero (the divisor of the correct predictions), and it returns metrics otherwise.
\<close>

theorem test_empty_dataset_raises:
  "(dataset_len (testloader mg) = 0
      \<or> sum_list (map (n_labels T) (batches (testloader mg))) = 0
     \<longrightarrow> (\<exists>e. test T D fs mg = Inl e))
   \<and> (\<forall>mg1 m1. load_client_state T fs mg = Inr mg1
          \<and> finetune T (config_or (num_finetune_epochs (mconfig mg1))
                          (DEFAULT_FINETUNE_EPOCHS D)) mg1 = Inr m1
        \<longrightarrow> (test T D fs mg = Inl ZeroDivisionError
               \<longleftrightarrow> dataset_len (testloader mg) = 0
                   \<or> sum_list (map (n_labels T) (batches (testloader mg))) = 0)
            \<and> (dataset_len (testloader mg) \<noteq> 0
                 \<and> sum_list (map (n_labels T) (batches (testloader mg))) \<noteq> 0
               \<longrightarrow> (\<exists>r. test T D fs mg = Inr r)))"
proof -
  have a: "(test T D fs mg = Inl ZeroDivisionError
               \<longleftrightarrow> dataset_len (testloader mg) = 0
                   \<or> sum_list (map (n_labels T) (batches (testloader mg))) = 0)
            \<and> (dataset_len (testloader mg) \<noteq> 0
                 \<and> sum_list (map (n_labels T) (batches (testloader mg))) \<noteq> 0
               \<longrightarrow> (\<exists>r. test T D fs mg = Inr r))"
    if l: "load_client_state T fs mg = Inr mg1"
      and f: "finetune T (config_or (num_finetune_epochs (mconfig mg1))
                              (DEFAULT_FINETUNE_EPOCHS D)) mg1 = Inr m1" for mg1 m1
  proof -
    from load_client_state_frame [OF l] have tl: "testloader mg1 = testloader mg" by simp
    have t: "test T D fs mg = test_loaded T D mg1" by (simp add: test_def l)
    from test_loaded_divisions [OF f] show ?thesis unfolding t tl .
  qed
  have b: "\<exists>e. test T D fs mg = Inl e"
    if z: "dataset_len (testloader mg) = 0
           \<or> sum_list (map (n_labels T) (batches (testloader mg))) = 0"
  proof (cases "load_client_state T fs mg")
    case (Inl e)
    then show ?thesis by (simp add: test_def)
  next
    case (Inr mg1)
    show ?thesis
    proof (cases "finetune T (config_or (num_finetune_epochs (mconfig mg1))
                              (DEFAULT_FINETUNE_EPOCHS D)) mg1")
      case (Inl e)
      with Inr show ?thesis by (simp add: test_def test_loaded_def Let_def)
    next
      case (Inr m1)
      from a [OF \<open>load_client_state T fs mg = Inr mg1\<close> Inr] z show ?thesis by blast
    qed
  qed
  show ?thesis
  proof (intro conjI allI impI)
    assume "dataset_len (testloader mg) = 0
            \<or> sum_list (map (n_labels T) (batches (testloader mg))) = 0"
    then show "\<exists>e. test T D fs mg = Inl e" by (rule b)
  next
    fix mg1 m1
    assume h: "load_client_state T fs mg = Inr mg1
          \<and> finetune T (config_or (num_finetune_epochs (mconfig mg1))
                          (DEFAULT_FINETUNE_EPOCHS D)) mg1 = Inr m1"
    from a [OF conjunct1 [OF h] conjunct2 [OF h]]
    show "test T D fs mg = Inl ZeroDivisionError
            \<longleftrightarrow> dataset_len (testloader mg) = 0
                \<or> sum_list (map (n_labels T) (batches (testloader mg))) = 0"
      by (rule conjunct1)
  next
    fix mg1 m1
    assume h: "load_client_state T fs mg = Inr mg1
          \<and> finetune T (config_or (num_finetune_epochs (mconfig mg1))
                          (DEFAULT_FINETUNE_EPOCHS D)) mg1 = Inr m1"
      and n: "dataset_len (testloader mg) \<noteq> 0
                 \<and> sum_list (map (n_labels T) (batches (testloader mg))) \<noteq> 0"
    from a [OF conjunct1 [OF h] conjunct2 [OF h]] n
    show "\<exists>r. test T D fs mg = Inr r" by blast
  qed
qed

theorem test_empty_dataset_raises_witness:
  "test toy_torch toy_constants no_files
     ((toy_manager (toy_config None None (Some 0)))\<lparr>testloader := \<lparr>batches = [], dataset_len = 0\<rparr>\<rparr>)
     = Inl ZeroDivisionError
   \<and> test toy_torch toy_constants no_files
     ((toy_manager (toy_config None None (Some 0)))\<lparr>testloader := \<lparr>batches = [], dataset_len = 2\<rparr>\<rparr>)
     = Inl ZeroDivisionError
   \<and> (\<exists>r. test toy_torch toy_constants no_files (toy_manager (toy_config None None (Some 0)))
            = Inr r)"
proof -
  let ?c = "toy_config None None (Some 0)"
  let ?mg0 = "(toy_manager ?c)\<lparr>testloader := \<lparr>batches = [], dataset_len = 0\<rparr>\<rparr>"
  let ?mg2 = "(toy_manager ?c)\<lparr>testloader := \<lparr>batches = [], dataset_len = 2\<rparr>\<rparr>"
  have l0: "load_client_state toy_torch no_files ?mg0 = Inr ?mg0"
    and l2: "load_client_state toy_torch no_files ?mg2 = Inr ?mg2"
    and l: "load_client_state toy_torch no_files (toy_manager ?c) = Inr (toy_manager ?c)"
    by (simp_all add: load_client_state_def no_files_def toy_manager_def)
  have f0: "finetune toy_torch (config_or (num_finetune_epochs (mconfig ?mg0))
              (DEFAULT_FINETUNE_EPOCHS toy_constants)) ?mg0 = Inr (model ?mg0)"
    and f2: "finetune toy_torch (config_or (num_finetune_epochs (mconfig ?mg2))
              (DEFAULT_FINETUNE_EPOCHS toy_constants)) ?mg2 = Inr (model ?mg2)"
    and f: "finetune toy_torch (config_or (num_finetune_epochs (mconfig (toy_manager ?c)))
              (DEFAULT_FINETUNE_EPOCHS toy_constants)) (toy_manager ?c)
              = Inr (model (toy_manager ?c))"
    by (simp_all add: finetune_def config_or_def toy_manager_def toy_config_def)
  have z0: "dataset_len (testloader ?mg0) = 0" by simp
  have z2: "sum_list (map (n_labels toy_torch) (batches (testloader ?mg2))) = 0" by simp
  have n: "dataset_len (testloader (toy_manager ?c)) \<noteq> 0
           \<and> sum_list (map (n_labels toy_torch) (batches (testloader (toy_manager ?c)))) \<noteq> 0"
    by (simp add: toy_manager_def toy_torch_def)
  from test_empty_dataset_raises [of ?mg0 toy_torch toy_constants no_files] l0 f0 z0
  have r0: "test toy_torch toy_constants no_files ?mg0 = Inl ZeroDivisionError" by blast
  from test_empty_dataset_raises [of ?mg2 toy_torch toy_constants no_files] l2 f2 z2
  have r2: "test toy_torch toy_constants no_files ?mg2 = Inl ZeroDivisionError" by blast
  from test_empty_dataset_raises [of "toy_manager ?c" toy_torch toy_constants no_files] l f n
  have r: "\<exists>r. test toy_torch toy_constants no_files (toy_manager ?c) = Inr r" by blast
  from r0 r2 r show ?thesis by simp
qed

subsection \<open>Claim C9: the client state at the start of \<^verbatim>\<open>train\<close> and \<^verbatim>\<open>test\<close>\<close>

text \<open>
  C9. \<^verbatim>\<open>train\<close> and \<^verbatim>\<open>test\<close> both start by loading the client state. When no path is
  configured or no file is at the path, the load changes nothing and raises nothing, and
  the call goes on with the manager as it is. When the file holds a head state (the names of
  the head, with matching shapes), the head takes the file's value for every name, and the
  call goes on with that head.
\<close>

theorem client_state_loaded_first:
  "(client_save_path mg = None \<or> (\<exists>p. client_save_path mg = Some p \<and> fs p = None)
      \<longrightarrow> load_client_state T fs mg = Inr mg
          \<and> train T D fs mg = ebind (train_loaded T D fs mg) train_return
          \<and> test T D fs mg = test_loaded T D mg)
   \<and> (client_save_path mg = Some p \<and> fs p = Some sd
        \<and> set (map fst sd) = set (map fst (head (model mg)))
        \<and> (\<forall>(k, q) \<in> set (head (model mg)). \<forall>v. map_of sd k = Some v
                                                \<longrightarrow> shape T v = shape T (pvalue q))
      \<longrightarrow> (\<exists>h. load_client_state T fs mg = Inr (mg\<lparr>model := (model mg)\<lparr>head := h\<rparr>\<rparr>)
               \<and> map fst h = map fst (head (model mg))
               \<and> (\<forall>(k, q) \<in> set h. map_of sd k = Some (pvalue q))
               \<and> train T D fs mg
                    = ebind (train_loaded T D fs (mg\<lparr>model := (model mg)\<lparr>head := h\<rparr>\<rparr>)) train_return
               \<and> test T D fs mg = test_loaded T D (mg\<lparr>model := (model mg)\<lparr>head := h\<rparr>\<rparr>)))"
proof (intro conjI impI)
  assume a: "client_save_path mg = None \<or> (\<exists>p. client_save_path mg = Some p \<and> fs p = None)"
  from load_client_state_absent [OF a, of T]
  show "load_client_state T fs mg = Inr mg"
    and "train T D fs mg = ebind (train_loaded T D fs mg) train_return"
    and "test T D fs mg = test_loaded T D mg"
    by (simp_all add: train_def train_run_def test_def)
next
  assume a: "client_save_path mg = Some p \<and> fs p = Some sd
        \<and> set (map fst sd) = set (map fst (head (model mg)))
        \<and> (\<forall>(k, q) \<in> set (head (model mg)). \<forall>v. map_of sd k = Some v
                                                \<longrightarrow> shape T v = shape T (pvalue q))"
  let ?h = "copy_params T [] (head (model mg)) sd"
  from a have keys: "set (map fst sd) = set (map fst (head (model mg)))" by simp
  from a have same: "\<forall>(k, q) \<in> set (head (model mg)). \<forall>v. map_of sd k = Some v
                                                \<longrightarrow> shape T v = shape T (pvalue q)"
    by simp
  note sm = same_shapes_strict [OF same]
  have sub: "set (map fst (head (model mg))) \<subseteq> set (map fst sd)" using keys by simp
  have l: "load_client_state T fs mg = Inr (mg\<lparr>model := (model mg)\<lparr>head := ?h\<rparr>\<rparr>)"
    using a load_strict_ok [OF keys sm] by (simp add: load_client_state_def)
  have "map fst ?h = map fst (head (model mg))" by (rule copy_params_keys)
  moreover note copy_params_all_replaced [OF sub same]
  moreover have "train T D fs mg
                   = ebind (train_loaded T D fs (mg\<lparr>model := (model mg)\<lparr>head := ?h\<rparr>\<rparr>)) train_return"
    by (simp add: train_def train_run_def l)
  moreover have "test T D fs mg = test_loaded T D (mg\<lparr>model := (model mg)\<lparr>head := ?h\<rparr>\<rparr>)"
    by (simp add: test_def l)
  ultimately show "\<exists>h. load_client_state T fs mg = Inr (mg\<lparr>model := (model mg)\<lparr>head := h\<rparr>\<rparr>)
               \<and> map fst h = map fst (head (model mg))
               \<and> (\<forall>(k, q) \<in> set h. map_of sd k = Some (pvalue q))
               \<and> train T D fs mg
                    = ebind (train_loaded T D fs (mg\<lparr>model := (model mg)\<lparr>head := h\<rparr>\<rparr>)) train_return
               \<and> test T D fs mg = test_loaded T D (mg\<lparr>model := (model mg)\<lparr>head := h\<rparr>\<rparr>)"
    using l by blast
qed

theorem client_state_loaded_first_witness:
  "load_client_state toy_torch no_files (toy_manager (toy_config None None None))
     = Inr (toy_manager (toy_config None None None))
   \<and> load_client_state toy_torch (no_files(''client_0.pth'' := Some [(''v'', [8])]))
       (toy_manager (toy_config None None None))
     = Inr ((toy_manager (toy_config None None None))
              \<lparr>model := toy_model\<lparr>head := [(''v'', toy_param [8])]\<rparr>\<rparr>)"
  using client_state_loaded_first [of "toy_manager (toy_config None None None)" no_files
      toy_torch toy_constants "''client_0.pth''" "[(''v'', [8])]"]
    client_state_loaded_first [of "toy_manager (toy_config None None None)"
      "no_files(''client_0.pth'' := Some [(''v'', [8])])"
      toy_torch toy_constants "''client_0.pth''" "[(''v'', [8])]"]
  by (simp add: toy_manager_def toy_model_def toy_param_def toy_torch_def no_files_def
        load_client_state_def load_state_dict_def size_mismatch_def index_errors_def
        load_input_def missing_keys_def unexpected_keys_def copy_params_def)

subsection \<open>Evaluating the small instance\<close>

lemmas toy_defs = toy_manager_def toy_config_def toy_model_def toy_param_def toy_torch_def
  toy_constants_def no_files_def

lemmas run_defs = train_run_def train_loaded_def train_loop_def load_client_state_def
  config_or_def py_range_def train_batch_def zero_grad_def zero_grad_params_def backward_def
  accumulate_grad_def step_def SGD_new_def enable_head_def enable_body_def disable_head_def
  disable_body_def set_requires_grad_def save_client_state_def state_dict_of_def Let_def

subsection \<open>Claim C3: two calls of \<^verbatim>\<open>train\<close> in sequence\<close>

lemma map_of_state_dict_of: "map_of (state_dict_of md) k = map_option pvalue (map_of md k)"
  by (induction md) (auto simp: state_dict_of_def)

lemma train_run_saves:
  assumes "train_run T D fs mg = Inr (st, mg', fs')"
  shows "client_save_path mg' = client_save_path mg \<and> fs' = save_client_state fs mg'"
proof -
  from assms obtain mg1 where l: "load_client_state T fs mg = Inr mg1"
    and r: "train_loaded T D fs mg1 = Inr (st, mg', fs')"
    by (auto simp: train_run_def ebind_eq_Inr)
  from r have "client_save_path mg' = client_save_path mg1 \<and> fs' = save_client_state fs mg'"
    by (auto simp: train_loaded_def Let_def ebind_eq_Inr)
  with load_client_state_frame [OF l] show ?thesis by simp
qed

text \<open>
  C3. With a client state path configured, once the first call of \<^verbatim>\<open>train\<close> is through its
  loop, the file at the path holds the state of the head as the training left it, whatever
  that state is. The second call, on the manager the first call left (or on one whose head
  has the same names and shapes, whatever its values), loads exactly this state into the head
  and only then goes on to the epochs.
\<close>

theorem second_train_loads_saved_head:
  assumes p: "client_save_path mg = Some p"
    and run: "train_run T D fs mg = Inr (st, mg', fs')"
    and dist: "distinct (map fst (head (model mg')))"
    and p2: "client_save_path mg2 = Some p"
    and arch: "shapes_of T (head (model mg2)) = shapes_of T (head (model mg'))"
  shows "fs' p = Some (state_dict_of (head (model mg')))
       \<and> client_save_path mg' = Some p
       \<and> (\<exists>h. load_client_state T fs' mg2 = Inr (mg2\<lparr>model := (model mg2)\<lparr>head := h\<rparr>\<rparr>)
              \<and> state_dict_of h = state_dict_of (head (model mg'))
              \<and> train T D fs' mg2
                   = ebind (train_loaded T D fs' (mg2\<lparr>model := (model mg2)\<lparr>head := h\<rparr>\<rparr>))
                       train_return)"
proof -
  let ?sd = "state_dict_of (head (model mg'))"
  let ?h = "copy_params T [] (head (model mg2)) ?sd"
  from train_run_saves [OF run] p
  have path: "client_save_path mg' = Some p" and fs': "fs' = save_client_state fs mg'"
    by simp_all
  from fs' path have saved: "fs' p = Some ?sd" by (simp add: save_client_state_def)
  have own: "\<And>k. map_of ?sd ([] @ k) = map_option pvalue (map_of (head (model mg')) k)"
    by (simp add: map_of_state_dict_of)
  from copy_same_arch [OF arch dist own]
  have sm: "index_errors T [] (head (model mg2)) ?sd = []
            \<and> size_mismatch T [] (head (model mg2)) ?sd = []"
    and same: "state_dict_of ?h = ?sd"
    by simp_all
  have keys: "set (map fst ?sd) = set (map fst (head (model mg2)))"
    by (simp only: keys_state_dict_of shapes_of_keys [OF arch])
  have l: "load_client_state T fs' mg2 = Inr (mg2\<lparr>model := (model mg2)\<lparr>head := ?h\<rparr>\<rparr>)"
    using load_strict_ok [OF keys sm] by (simp add: load_client_state_def p2 saved)
  have "train T D fs' mg2
          = ebind (train_loaded T D fs' (mg2\<lparr>model := (model mg2)\<lparr>head := ?h\<rparr>\<rparr>)) train_return"
    by (simp add: train_def train_run_def l)
  with saved path l same show ?thesis by blast
qed

theorem second_train_loads_saved_head_witness:
  "\<exists>st mg' fs'.
     train_run toy_torch toy_constants no_files (toy_manager (toy_config (Some 1) (Some 1) None))
       = Inr (st, mg', fs')
     \<and> state_dict_of (head (model mg')) = [(''v'', [1])]
     \<and> fs' ''client_0.pth'' = Some [(''v'', [1])]
     \<and> (\<exists>h. load_client_state toy_torch fs' mg' = Inr (mg'\<lparr>model := (model mg')\<lparr>head := h\<rparr>\<rparr>)
            \<and> state_dict_of h = [(''v'', [1])])"
proof -
  let ?mg = "toy_manager (toy_config (Some 1) (Some 1) None)"
  obtain st mg' fs' where run: "train_run toy_torch toy_constants no_files ?mg = Inr (st, mg', fs')"
    and hd: "head (model mg') = [(''v'', \<lparr>pvalue = [1], requires_grad = False, grad = None\<rparr>)]"
    by (simp add: toy_defs run_defs upt_rec)
  have p: "client_save_path ?mg = Some ''client_0.pth''" by (simp add: toy_manager_def)
  have dist: "distinct (map fst (head (model mg')))" by (simp add: hd)
  from train_run_saves [OF run] p have p2: "client_save_path mg' = Some ''client_0.pth''"
    by simp
  have sd: "state_dict_of (head (model mg')) = [(''v'', [1])]"
    by (simp add: hd state_dict_of_def)
  from second_train_loads_saved_head [OF p run dist p2 refl]
  obtain h where "fs' ''client_0.pth'' = Some [(''v'', [1])]"
    and "load_client_state toy_torch fs' mg' = Inr (mg'\<lparr>model := (model mg')\<lparr>head := h\<rparr>\<rparr>)"
    and "state_dict_of h = [(''v'', [1])]"
    unfolding sd by blast
  with run sd show ?thesis by blast
qed

subsection \<open>Claim C5: \<^verbatim>\<open>test\<close> without fine-tuning\<close>




subsection \<open>The epoch loop split into its phases\<close>

lemma train_epochs_append:
  "train_epochs T nl loader st (xs @ ys)
     = ebind (train_epochs T nl loader st xs) (\<lambda>st'. train_epochs T nl loader st' ys)"
proof (induction xs arbitrary: st)
  case Nil
  show ?case by simp
next
  case (Cons i xs)
  show ?case by (simp add: Let_def Cons.IH ebind_assoc)
qed

lemma train_epochs_head_phase:
  "\<forall>i \<in> set is. i < nl
   \<Longrightarrow> train_epochs T nl loader st is = repeat_epochs (length is) (head_phase_epoch T loader) st"
proof (induction "is" arbitrary: st)
  case Nil
  show ?case by simp
next
  case (Cons i "is")
  then show ?case by (simp add: head_phase_epoch_def)
qed

lemma train_epochs_rep_phase:
  "\<forall>i \<in> set is. nl \<le> i
   \<Longrightarrow> train_epochs T nl loader st is = repeat_epochs (length is) (rep_phase_epoch T loader) st"
proof (induction "is" arbitrary: st)
  case Nil
  show ?case by simp
next
  case (Cons i "is")
  then show ?case by (simp add: rep_phase_epoch_def)
qed

lemma py_range_split:
  assumes "0 \<le> nr"
  shows "py_range (nl + nr) = py_range nl @ map int [nat nl..<nat (nl + nr)]"
proof -
  from assms have "nat nl \<le> nat (nl + nr)" by simp
  then have "[0..<nat (nl + nr)] = [0..<nat nl] @ [nat nl..<nat (nl + nr)]"
    by (metis le_add_diff_inverse upt_add_eq_append zero_le)
  then show ?thesis by (simp add: py_range_def)
qed

lemma py_range_below: "\<forall>i \<in> set (py_range nl). i < nl"
  by (auto simp: py_range_def)

lemma py_range_rest_above: "\<forall>i \<in> set (map int [nat nl..<n]). nl \<le> i"
  by auto

lemma phase_flags:
  "(\<forall>(k, p) \<in> set (body (enable_head (disable_body m))). \<not> requires_grad p)
   \<and> (\<forall>(k, p) \<in> set (head (enable_head (disable_body m))). requires_grad p)
   \<and> (\<forall>(k, p) \<in> set (body (disable_head (enable_body m))). requires_grad p)
   \<and> (\<forall>(k, p) \<in> set (head (disable_head (enable_body m))). \<not> requires_grad p)"
  by (auto simp: enable_head_def disable_body_def disable_head_def enable_body_def
        set_requires_grad_def)

subsection \<open>Claim C1: the two phases of \<^verbatim>\<open>train\<close>\<close>

text \<open>
  C1 as stated, for every manager, fails when an epoch count is negative: with
  \<^verbatim>\<open>num_local_epochs = 2\<close> and \<^verbatim>\<open>num_rep_epochs = -1\<close> the loop is over \<^verbatim>\<open>range(1)\<close> and
  runs one head-phase epoch, not two (every epoch of the instance counts two labels).
\<close>

theorem train_negative_epochs_counterexample:
  "train_loop toy_torch 2 (- 1) (toy_manager (toy_config None None None))
     \<noteq> two_phase_train toy_torch 2 0 (toy_manager (toy_config None None None))
   \<and> map_sum id ts_total (train_loop toy_torch 2 (- 1) (toy_manager (toy_config None None None)))
       = Inr 2
   \<and> map_sum id ts_total (two_phase_train toy_torch 2 0 (toy_manager (toy_config None None None)))
       = Inr 4"
  by (simp add: train_loop_def two_phase_train_def head_phase_epoch_def py_range_def upt_rec
        numeral_2_eq_2 toy_defs train_batch_def zero_grad_def zero_grad_params_def backward_def
        accumulate_grad_def step_def SGD_new_def enable_head_def disable_body_def
        set_requires_grad_def Let_def)

text \<open>
  C1 (amended). For every manager and non-negative epoch counts, the loop of \<^verbatim>\<open>train\<close> is
  the two-phase procedure: \<^verbatim>\<open>num_local_epochs\<close> head-phase epochs (body gradients disabled,
  head gradients enabled) and then \<^verbatim>\<open>num_rep_epochs\<close> representation-phase epochs (body
  gradients enabled, head gradients disabled), every epoch a pass of minibatch steps over
  the training loader with the one criterion and the one optimizer (SGD, momentum 0.5) that
  is created before the first epoch and handed from each step to the next.
\<close>

theorem train_loop_two_phases:
  assumes "0 \<le> nl" and "0 \<le> nr"
  shows "train_loop T nl nr mg = two_phase_train T (nat nl) (nat nr) mg
       \<and> (\<forall>(k, p) \<in> set (body (enable_head (disable_body m))). \<not> requires_grad p)
       \<and> (\<forall>(k, p) \<in> set (head (enable_head (disable_body m))). requires_grad p)
       \<and> (\<forall>(k, p) \<in> set (body (disable_head (enable_body m))). requires_grad p)
       \<and> (\<forall>(k, p) \<in> set (head (disable_head (enable_body m))). \<not> requires_grad p)"
proof -
  have la: "length (py_range nl) = nat nl" by (simp add: py_range_def)
  have lb: "length (map int [nat nl..<nat (nl + nr)]) = nat nr"
    using assms by (simp add: nat_add_distrib)
  have "train_loop T nl nr mg = two_phase_train T (nat nl) (nat nr) mg"
    unfolding train_loop_def two_phase_train_def Let_def
    by (simp only: py_range_split [OF assms(2)] train_epochs_append
          train_epochs_head_phase [OF py_range_below]
          train_epochs_rep_phase [OF py_range_rest_above] la lb)
  with phase_flags [of m] show ?thesis by simp
qed

theorem train_loop_two_phases_witness:
  "train_loop toy_torch 1 1 (toy_manager (toy_config None None None))
     = two_phase_train toy_torch (nat 1) (nat 1) (toy_manager (toy_config None None None))
   \<and> map_sum id (model_state_dict \<circ> ts_model)
        (train_loop toy_torch 1 1 (toy_manager (toy_config None None None)))
     = Inr [(''_body.w'', [0]), (''_head.v'', [1])]"
proof -
  have a: "(0::int) \<le> 1" by simp
  have "map_sum id (model_state_dict \<circ> ts_model)
          (train_loop toy_torch 1 1 (toy_manager (toy_config None None None)))
        = Inr [(''_body.w'', [0]), (''_head.v'', [1])]"
    by (simp add: toy_defs run_defs upt_rec model_state_dict_def prefixed_def)
  with train_loop_two_phases [OF a a, of toy_torch "toy_manager (toy_config None None None)"
      toy_model]
  show ?thesis by simp
qed

subsection \<open>Claim C2: the head during the representation phase\<close>

lemma step_params_skip:
  "\<forall>(k, p) \<in> set md. grad p = None \<Longrightarrow> step_params T pre opt md = (md, opt)"
  by (induction md) auto

lemma frozen_after_backward:
  assumes "\<forall>(k, p) \<in> set md. \<not> requires_grad p"
  shows "accumulate_grad T m b pre md = md"
  using assms by (induction md) (auto simp: accumulate_grad_def)

lemma zero_grad_params_none:
  "set_to_none T \<Longrightarrow> \<forall>(k, p) \<in> set (zero_grad_params T md). grad p = None"
  by (auto simp: zero_grad_params_def)

lemma zero_grad_params_frame:
  "state_dict_of (zero_grad_params T md) = state_dict_of md
   \<and> (\<forall>(k, p) \<in> set (zero_grad_params T md). \<not> requires_grad p)
       = (\<forall>(k, p) \<in> set md. \<not> requires_grad p)"
  by (auto simp: zero_grad_params_def state_dict_of_def)

lemma train_batch_frozen_head:
  assumes stn: "set_to_none T"
    and fr: "\<forall>(k, p) \<in> set (head (ts_model st)). \<not> requires_grad p"
    and ok: "train_batch T st b = Inr st'"
  shows "head (ts_model st') = zero_grad_params T (head (ts_model st))"
proof (cases "backward T (zero_grad T (ts_model st)) b")
  case (Inl e)
  with ok show ?thesis by (simp add: train_batch_def Let_def)
next
  case (Inr m2)
  let ?h = "zero_grad_params T (head (ts_model st))"
  obtain m3 opt' where s: "step T (ts_opt st) m2 = (m3, opt')" by force
  from ok Inr s have st': "ts_model st' = m3"
    by (auto simp: train_batch_def Let_def)
  have fr1: "\<forall>(k, p) \<in> set ?h. \<not> requires_grad p"
    using fr by (simp add: zero_grad_params_frame)
  from Inr have "head m2 = accumulate_grad T (zero_grad T (ts_model st)) b ''_head.'' ?h"
    by (auto simp: backward_def zero_grad_def split: if_splits)
  then have h2: "head m2 = ?h" by (simp add: frozen_after_backward [OF fr1])
  from s have "head m3 = ?h"
    by (auto simp: step_def Let_def h2 step_params_skip [OF zero_grad_params_none [OF stn]]
          split: prod.splits)
  with st' show ?thesis by simp
qed

lemma train_batches_frozen_head:
  assumes stn: "set_to_none T"
  shows "\<forall>(k, p) \<in> set (head (ts_model st)). \<not> requires_grad p
         \<Longrightarrow> train_batches T st bs = Inr st'
         \<Longrightarrow> state_dict_of (head (ts_model st')) = state_dict_of (head (ts_model st))"
proof (induction bs arbitrary: st)
  case Nil
  then show ?case by simp
next
  case (Cons b bs)
  from Cons.prems(2) obtain st1 where b1: "train_batch T st b = Inr st1"
    and rest: "train_batches T st1 bs = Inr st'"
    by (auto simp: ebind_eq_Inr)
  from train_batch_frozen_head [OF stn Cons.prems(1) b1]
  have h1: "head (ts_model st1) = zero_grad_params T (head (ts_model st))" .
  with Cons.prems(1) have fr1: "\<forall>(k, p) \<in> set (head (ts_model st1)). \<not> requires_grad p"
    by (simp add: zero_grad_params_frame)
  from Cons.IH [OF fr1 rest] h1 show ?case by (simp add: zero_grad_params_frame)
qed

lemma disable_head_frame:
  "state_dict_of (head (disable_head (enable_body m))) = state_dict_of (head m)"
  by (simp add: disable_head_def enable_body_def set_requires_grad_def state_dict_of_def
        case_prod_unfold comp_def)

lemma rep_epochs_keep_head:
  assumes stn: "set_to_none T"
  shows "\<forall>i \<in> set is. nl \<le> i \<Longrightarrow> train_epochs T nl loader st is = Inr st'
         \<Longrightarrow> state_dict_of (head (ts_model st')) = state_dict_of (head (ts_model st))"
proof (induction "is" arbitrary: st)
  case Nil
  then show ?case by simp
next
  case (Cons i "is")
  let ?st1 = "st\<lparr>ts_model := disable_head (enable_body (ts_model st))\<rparr>"
  from Cons.prems obtain st2 where e: "train_batches T ?st1 (batches loader) = Inr st2"
    and rest: "train_epochs T nl loader st2 is = Inr st'"
    by (auto simp: Let_def ebind_eq_Inr)
  have fr: "\<forall>(k, p) \<in> set (head (ts_model ?st1)). \<not> requires_grad p"
    using phase_flags [of "ts_model st"] by simp
  from train_batches_frozen_head [OF stn fr e]
  have "state_dict_of (head (ts_model st2)) = state_dict_of (head (ts_model st))"
    by (simp add: disable_head_frame)
  moreover from Cons.prems(1) have "\<forall>i \<in> set is. nl \<le> i" by simp
  from Cons.IH [OF this rest]
  have "state_dict_of (head (ts_model st')) = state_dict_of (head (ts_model st2))" .
  ultimately show ?case by simp
qed

text \<open>
  C2. With the library's current default of \<^verbatim>\<open>zero_grad\<close> (gradients set to \<^verbatim>\<open>None\<close>),
  for every model, training loader and phase-B epoch count that is not negative: if the loop
  of \<^verbatim>\<open>train\<close> stopped after phase A ends in \<open>stA\<close> and the whole loop ends in \<open>stB\<close>,
  the head has the same value for every parameter in \<open>stB\<close> as in \<open>stA\<close>.
\<close>

theorem rep_phase_keeps_head:
  assumes stn: "set_to_none T" and nr: "0 \<le> nr"
    and A: "train_loop T nl 0 mg = Inr stA"
    and B: "train_loop T nl nr mg = Inr stB"
  shows "state_dict_of (head (ts_model stB)) = state_dict_of (head (ts_model stA))"
proof -
  from B A obtain st1 where 1: "train_epochs T nl (trainloader mg) stA
                                  (map int [nat nl..<nat (nl + nr)]) = Inr stB"
    unfolding train_loop_def Let_def py_range_split [OF nr] train_epochs_append
    by (auto simp: ebind_eq_Inr)
  from rep_epochs_keep_head [OF stn py_range_rest_above 1] show ?thesis .
qed

theorem rep_phase_keeps_head_witness:
  "map_sum id (state_dict_of \<circ> head \<circ> ts_model)
      (train_loop toy_torch 1 0 (toy_manager (toy_config None None None)))
     = Inr [(''v'', [1])]
   \<and> map_sum id (state_dict_of \<circ> head \<circ> ts_model)
      (train_loop toy_torch 1 2 (toy_manager (toy_config None None None)))
     = Inr [(''v'', [1])]
   \<and> map_sum id (state_dict_of \<circ> body \<circ> ts_model)
      (train_loop toy_torch 1 2 (toy_manager (toy_config None None None)))
     \<noteq> map_sum id (state_dict_of \<circ> body \<circ> ts_model)
      (train_loop toy_torch 1 0 (toy_manager (toy_config None None None)))"
proof -
  let ?mg = "toy_manager (toy_config None None None)"
  have stn: "set_to_none toy_torch" by (simp add: toy_torch_def)
  have nr: "(0::int) \<le> 2" by simp
  obtain stA where A: "train_loop toy_torch 1 0 ?mg = Inr stA"
    and hA: "state_dict_of (head (ts_model stA)) = [(''v'', [1])]"
    and bA: "state_dict_of (body (ts_model stA)) = [(''w'', [1])]"
    by (simp add: toy_defs run_defs upt_rec)
  obtain stB where B: "train_loop toy_torch 1 2 ?mg = Inr stB"
    and bB: "state_dict_of (body (ts_model stB)) = [(''w'', [- 3 / 2])]"
    by (simp add: toy_defs run_defs upt_rec numeral_2_eq_2 numeral_3_eq_3)
  from rep_phase_keeps_head [OF stn nr A B] hA
  have "state_dict_of (head (ts_model stB)) = [(''v'', [1])]" by simp
  with A B hA bA bB show ?thesis by simp
qed

text \<open>
  The hypothesis on \<^verbatim>\<open>zero_grad\<close> is needed: where the library zeroes the gradients in
  place (the default before PyTorch 2.0), the head keeps the zero gradient of phase A, and
  the optimizer moves it by its momentum buffer during phase B (here from 1 to 1/2).
\<close>

lemma zeroed_gradients_move_head:
  "map_sum id (state_dict_of \<circ> head \<circ> ts_model)
      (train_loop (toy_torch\<lparr>set_to_none := False\<rparr>) 1 0 (toy_manager (toy_config None None None)))
     = Inr [(''v'', [1])]
   \<and> map_sum id (state_dict_of \<circ> head \<circ> ts_model)
      (train_loop (toy_torch\<lparr>set_to_none := False\<rparr>) 1 1 (toy_manager (toy_config None None None)))
     = Inr [(''v'', [1 / 2])]"
  by (simp add: toy_defs run_defs upt_rec)

end
